theory Spec2Isabelle
  imports Main "HOL-Library.Sublist" "HOL-Library.AList"
begin

section \<open>JavaScript values\<close>

text \<open>
  The sources are JavaScript. A property that may be absent is an \<open>option\<close>
  (\<open>None\<close> is \<open>undefined\<close>). A condition such as \<open>options.user && options.password\<close>
  tests truthiness: an absent property, the empty string and the number 0 are falsy.
  Calls of the logger have no influence on control flow; only the calls at level
  \<open>error\<close> are kept, as effects.
\<close>

definition truthy :: "string option \<Rightarrow> bool" where
  "truthy v = (case v of None \<Rightarrow> False | Some s \<Rightarrow> s \<noteq> [])"

definition truthy_num :: "nat option \<Rightarrow> bool" where
  "truthy_num v = (case v of None \<Rightarrow> False | Some n \<Rightarrow> n \<noteq> 0)"

text \<open>\<open>a || b\<close> on strings and on numbers.\<close>

definition or_else :: "string option \<Rightarrow> string \<Rightarrow> string" where
  "or_else v d = (if truthy v then the v else d)"

definition or_else_num :: "nat option \<Rightarrow> nat \<Rightarrow> nat" where
  "or_else_num v d = (if truthy_num v then the v else d)"

text \<open>
  An error handed to a callback is a string (\<open>'no authentication method'\<close>) or an object
  with the properties \<open>code\<close>, \<open>message\<close> and, attached by the pool, \<open>assertion\<close>: an error
  of the database client, or the parsed status payload of a stored routine (line 376).
  A string has none of the three properties.
\<close>

datatype error =
    ErrString string
  | ErrObject "int option" "string option" "string option"

fun code_of :: "error \<Rightarrow> int option" where
  "code_of (ErrObject c m a) = c"
| "code_of (ErrString s) = None"

fun message_of :: "error \<Rightarrow> string option" where
  "message_of (ErrObject c m a) = m"
| "message_of (ErrString s) = None"

fun assertion_of :: "error \<Rightarrow> string option" where
  "assertion_of (ErrObject c m a) = a"
| "assertion_of (ErrString s) = None"

text \<open>
  A lookup \<open>obj[key]\<close> on an object written as a literal also finds what the object
  inherits from \<open>Object.prototype\<close>: under each of these names a function or, under
  \<open>__proto__\<close>, the prototype itself, all of them truthy.
\<close>

definition Object_prototype :: "string list" where
  "Object_prototype =
     [''constructor'', ''toString'', ''toLocaleString'', ''valueOf'', ''hasOwnProperty'',
      ''isPrototypeOf'', ''propertyIsEnumerable'', ''__proto__'', ''__defineGetter__'',
      ''__defineSetter__'', ''__lookupGetter__'', ''__lookupSetter__'']"

section \<open>hdbPool.js: the pool of one environment and user\<close>

datatype assertion_opt = AssertionValue string | AssertionFunction

record options =
  host :: "string option"
  port :: "nat option"
  env :: "string option"
  user :: "string option"
  password :: "string option"
  sessionCookie :: "string option"
  assertion :: "assertion_opt option"
  maxPoolSize :: "nat option"
  minPoolSize :: "nat option"
  idleTimeoutMillis :: "nat option"
  refreshIdle :: "bool option"
  defaultSchema :: "string option"
  resphPrefix :: "string option"

definition truthy_assertion :: "assertion_opt option \<Rightarrow> bool" where
  "truthy_assertion a =
     (case a of None \<Rightarrow> False | Some AssertionFunction \<Rightarrow> True | Some (AssertionValue s) \<Rightarrow> s \<noteq> [])"

text \<open>
  The object built by \<open>new HDBPool(options, req)\<close>: \<open>this.env\<close>, \<open>this.user\<close>,
  \<open>this.options\<close>, the closure variable \<open>user\<close> (updated by every successful connection),
  and the factory handed to \<open>poolModule.Pool\<close> with its \<open>name\<close>, \<open>max\<close>, \<open>min\<close>,
  \<open>idleTimeoutMillis\<close> and \<open>refreshIdle\<close>, as the library keeps them. \<open>f_max\<close> is an option
  because line 198 assigns \<open>options.maxPoolSize\<close> to it as it is, also when that is
  \<open>undefined\<close>.
\<close>

record hdbpool =
  hp_env :: string
  hp_user :: string
  hp_options :: options
  cl_user :: string
  f_name :: string
  f_max :: "nat option"
  f_min :: nat
  f_idleTimeoutMillis :: nat
  f_refreshIdle :: bool

record connOpts =
  c_user :: string
  c_password :: string
  c_sessionCookie :: "string option"
  c_assertion :: "string option"
  c_method :: string

datatype effect =
    Log string string
  | PoolModule_Pool string
  | Connect connOpts
  | StoreIntoSession string string string
  | Exec string

text \<open>
  The result of \<open>createPool\<close>: \<open>undefined\<close>, the object of a constructor that returned
  early (line 76: no property is set on it, and no pool exists), or a pool.
\<close>

datatype created = NoPool | Unbuilt | Built hdbpool

text \<open>
  \<open>poolModule.Pool\<close> is the generic-pool library, which is not part of the sources. Its
  constructor normalises the two limits of the factory it is given, in place:
  \<open>factory.max = Math.max(factory.max, 1)\<close> and
  \<open>factory.min = Math.min(factory.min, factory.max - 1)\<close>.
\<close>

definition Pool_limits :: "nat \<Rightarrow> nat \<Rightarrow> nat \<times> nat" where
  "Pool_limits mx mn = (max mx 1, min mn (max mx 1 - 1))"

text \<open>
  \<open>HDBPool\<close>, lines 63-228. The match of the assertion against the regular expression
  of line 70 is done by the JavaScript runtime; \<open>nameID\<close> is its capture group 2.
\<close>

definition HDBPool :: "(string \<Rightarrow> string option) \<Rightarrow> options \<Rightarrow> created \<times> effect list" where
  "HDBPool nameID opts =
     (let usr = or_else (user opts) ''Unknown-user'';
          e = (if truthy (env opts) then the (env opts) else or_else (host opts) ''Unknown-env'');
          extracted =
            (case assertion opts of
               Some (AssertionValue a) \<Rightarrow>
                 if a \<noteq> [] \<and> \<not> truthy (user opts) then Some (nameID a) else None
             | _ \<Rightarrow> None)
      in if extracted = Some None \<or> extracted = Some (Some [])
         then (Unbuilt, [Log ''error'' ''Assertion does not contain NameID tag''])
         else
           let usr' = (case extracted of Some (Some n) \<Rightarrow> n | _ \<Rightarrow> usr);
               maxPoolSize0 = or_else_num (maxPoolSize opts) 1;
               maxPoolSize1 = (if (case minPoolSize opts of Some n \<Rightarrow> n > 0 | None \<Rightarrow> False)
                               then 1 else maxPoolSize0);
               nm = ''hdb-'' @ e @ ''-'' @ usr';
               limits = Pool_limits maxPoolSize1 (or_else_num (minPoolSize opts) 0)
           in (Built \<lparr> hp_env = e, hp_user = usr', hp_options = opts, cl_user = usr',
                       f_name = nm, f_max = Some (fst limits), f_min = snd limits,
                       f_idleTimeoutMillis = or_else_num (idleTimeoutMillis opts) 30000,
                       f_refreshIdle = (case refreshIdle opts of None \<Rightarrow> True | Some b \<Rightarrow> b) \<rparr>,
               [PoolModule_Pool nm]))"

text \<open>\<open>createPool\<close>, lines 624-640.\<close>

definition createPool :: "(string \<Rightarrow> string option) \<Rightarrow> options \<Rightarrow> created \<times> effect list" where
  "createPool nameID opts =
     (if \<not> truthy (host opts) then (NoPool, [Log ''error'' ''host needs to be specified''])
      else if \<not> truthy_num (port opts) then (NoPool, [Log ''error'' ''port needs to be specified''])
      else HDBPool nameID opts)"

text \<open>
  Network traffic starts in the factory's \<open>create\<close>, which only \<open>poolModule.Pool\<close> calls:
  a construction performs input or output only through a pool it has built.
\<close>

fun is_io :: "effect \<Rightarrow> bool" where
  "is_io (Log l m) = False"
| "is_io (PoolModule_Pool n) = True"
| "is_io (Connect c) = True"
| "is_io (StoreIntoSession e u c) = False"
| "is_io (Exec s) = True"

subsection \<open>The factory's create\<close>

text \<open>
  What the outside world answers during one call of \<open>create\<close> (lines 112-204): the byte
  of \<open>crypto.randomBytes(1)\<close>, the assertion factory's callback (an error text or the
  assertion), the client's \<open>connect\<close> (an error object, or the user and session cookie
  the client reports afterwards), and the answer to \<open>SET SCHEMA\<close>.
\<close>

datatype connect_result =
    ConnectError "int option" "string option"
  | Connected string "string option"

record answers =
  rnd :: char
  factory_result :: "string + string"
  connect_result :: connect_result
  schema_result :: "error option"

text \<open>
  Lines 128-149: the choice of the connect options. \<open>Inr None\<close> is the assertion
  branch, which leaves \<open>connOpts\<close> undefined until the factory has answered.
\<close>

definition chooseConnOpts :: "hdbpool \<Rightarrow> char \<Rightarrow> error + connOpts option" where
  "chooseConnOpts hp r =
     (let opts = hp_options hp in
      if truthy (user opts) \<and> truthy (password opts)
      then Inr (Some \<lparr> c_user = cl_user hp, c_password = the (password opts),
                        c_sessionCookie = None, c_assertion = None, c_method = ''password'' \<rparr>)
      else if truthy (user opts) \<and> truthy (sessionCookie opts)
      then Inr (Some \<lparr> c_user = the (user opts), c_password = [r],
                        c_sessionCookie = sessionCookie opts, c_assertion = None,
                        c_method = ''sessionCookie'' \<rparr>)
      else if truthy_assertion (assertion opts) then Inr None
      else Inl (ErrString ''no authentication method''))"

text \<open>\<open>setDefaultSchema\<close>, lines 596-608.\<close>

definition setDefaultSchema :: "options \<Rightarrow> error option \<Rightarrow> error option \<times> effect list" where
  "setDefaultSchema opts sres =
     (if \<not> truthy (defaultSchema opts) then (None, [])
      else (sres, [Exec (''SET SCHEMA '' @ the (defaultSchema opts))]))"

text \<open>
  \<open>conn\<close>, lines 170-203: the callback's error, the pool with \<open>options.user\<close>,
  \<open>options.sessionCookie\<close>, the closure's \<open>user\<close> and the factory's \<open>max\<close> updated, and
  the effects. (The client's \<open>error\<close> event, lines 121-124, is left out.)
\<close>

definition conn :: "hdbpool \<Rightarrow> connOpts \<Rightarrow> answers \<Rightarrow> error option \<times> hdbpool \<times> effect list" where
  "conn hp co w =
     (case connect_result w of
        ConnectError code msg \<Rightarrow>
          (Some (ErrObject code msg (if truthy (c_assertion co) then c_assertion co else None)),
           hp, [Connect co])
      | Connected u hdbCookie \<Rightarrow>
          let opts1 = (hp_options hp) \<lparr> user := Some u \<rparr>;
              stored = (c_method co = ''assertion'' \<and> truthy hdbCookie);
              opts2 = (if stored then opts1 \<lparr> sessionCookie := hdbCookie \<rparr> else opts1);
              max' = (if f_max hp \<noteq> maxPoolSize opts2 then maxPoolSize opts2 else f_max hp);
              hp' = hp \<lparr> hp_options := opts2, cl_user := u, f_max := max' \<rparr>;
              (err, effs) = setDefaultSchema opts2 (schema_result w)
          in (err, hp',
              [Connect co]
              @ (if stored then [StoreIntoSession (hp_env hp) u (the hdbCookie)] else [])
              @ effs))"

text \<open>
  Lines 151-168: the assertion factory of lines 80-87 answers with the literal assertion,
  or with what the configured function hands to its callback.
\<close>

definition assertionFactory :: "options \<Rightarrow> answers \<Rightarrow> string + string" where
  "assertionFactory opts w =
     (case assertion opts of
        Some (AssertionValue a) \<Rightarrow> Inr a
      | _ \<Rightarrow> factory_result w)"

text \<open>Lines 156-163: the connect options of the assertion branch.\<close>

definition assertionConnOpts :: "hdbpool \<Rightarrow> answers \<Rightarrow> string \<Rightarrow> connOpts" where
  "assertionConnOpts hp w a =
     \<lparr> c_user = cl_user hp, c_password = [rnd w], c_sessionCookie = None,
       c_assertion = Some a, c_method = ''assertion'' \<rparr>"

definition finish :: "hdbpool \<Rightarrow> connOpts option \<Rightarrow> answers \<Rightarrow> error option \<times> hdbpool \<times> effect list" where
  "finish hp chosen w =
     (case chosen of
        Some co \<Rightarrow> conn hp co w
      | None \<Rightarrow>
          (case assertionFactory (hp_options hp) w of
             Inl err \<Rightarrow> (Some (ErrString (''SAML delegation error:'' @ err)), hp, [])
           | Inr a \<Rightarrow> conn hp (assertionConnOpts hp w a) w))"

definition create :: "hdbpool \<Rightarrow> answers \<Rightarrow> error option \<times> hdbpool \<times> effect list" where
  "create hp w =
     (case chooseConnOpts hp (rnd w) of
        Inl err \<Rightarrow>
          (Some err, hp,
           [Log ''error'' (cl_user hp @ '' no authentication method for '' @ hp_env hp)])
      | Inr chosen \<Rightarrow> finish hp chosen w)"

text \<open>The connect options that reached the client.\<close>

fun connects :: "effect list \<Rightarrow> connOpts list" where
  "connects [] = []"
| "connects (Connect co # es) = co # connects es"
| "connects (e # es) = connects es"

subsection \<open>The pool's creations and acquisitions over time\<close>

text \<open>
  What the model takes from the generic-pool library: \<open>acquire\<close> puts the caller into the
  queue of waiting clients; the library calls the factory's \<open>create\<close> only while its
  resource count, which includes the creations still in flight, is below the factory's
  \<open>max\<close> (a client waits) or below its \<open>min\<close> (the minimum kept alive); the callback of a
  creation serves the first waiting client, with the error or with the handle, and a handle
  nobody waits for becomes available; an available handle is handed to the first waiting
  client; a released handle becomes available again; a failed creation and a destroyed
  handle give their place back. When the library does each of these, and in which order
  the answers arrive, is free: a run is any list of events.

  A creation in flight has chosen its connect options (lines 128-149) and waits for the
  assertion factory or the server. A handle is a connected client; the model keeps of it
  the connect options of its login. \<open>s_got\<close> is what the callbacks of the acquirers have
  received, \<open>s_logins\<close> the connect options of every login the server accepted, each with
  the session cookie the client reported afterwards.
\<close>

type_synonym handle = connOpts

record sim =
  s_pool :: hdbpool
  s_count :: nat
  s_pending :: "connOpts option list"
  s_waiting :: "nat list"
  s_available :: "handle list"
  s_inUse :: "handle list"
  s_got :: "(nat \<times> (error + handle)) list"
  s_logins :: "(connOpts \<times> string option) list"

datatype event =
    Acquire nat
  | StartCreate char
  | FinishCreate nat answers
  | Hand nat
  | ReleaseHandle nat
  | DestroyHandle nat

definition may_create :: "sim \<Rightarrow> bool" where
  "may_create s =
     ((case f_max (s_pool s) of Some m \<Rightarrow> s_count s < m | None \<Rightarrow> False)
      \<or> s_count s < f_min (s_pool s))"

text \<open>The first waiting client is served, with an error or with a handle.\<close>

definition serve :: "sim \<Rightarrow> error + handle \<Rightarrow> sim" where
  "serve s res =
     (case s_waiting s of
        [] \<Rightarrow> (case res of Inl e \<Rightarrow> s | Inr h \<Rightarrow> s \<lparr> s_available := s_available s @ [h] \<rparr>)
      | a # rest \<Rightarrow>
          s \<lparr> s_waiting := rest, s_got := s_got s @ [(a, res)],
              s_inUse := (case res of Inl e \<Rightarrow> s_inUse s | Inr h \<Rightarrow> s_inUse s @ [h]) \<rparr>)"

definition accepted_logins :: "connect_result \<Rightarrow> effect list \<Rightarrow> (connOpts \<times> string option) list" where
  "accepted_logins cres effs =
     (case cres of
        Connected u c \<Rightarrow> map (\<lambda>co. (co, c)) (connects effs)
      | ConnectError code msg \<Rightarrow> [])"

text \<open>
  One event. A creation that chooses no authentication method calls back at once (line
  148); a creation that ends without error has made one connect, and its client is the
  handle.
\<close>

fun step :: "sim \<Rightarrow> event \<Rightarrow> sim" where
  "step s (Acquire a) = s \<lparr> s_waiting := s_waiting s @ [a] \<rparr>"
| "step s (StartCreate r) =
     (if may_create s then
        (case chooseConnOpts (s_pool s) r of
           Inl err \<Rightarrow> serve s (Inl err)
         | Inr chosen \<Rightarrow> s \<lparr> s_count := s_count s + 1, s_pending := s_pending s @ [chosen] \<rparr>)
      else s)"
| "step s (FinishCreate i w) =
     (if i < length (s_pending s) then
        (case finish (s_pool s) (s_pending s ! i) w of
           (err, hp', effs) \<Rightarrow>
             let s1 = s \<lparr> s_pool := hp',
                          s_pending := take i (s_pending s) @ drop (Suc i) (s_pending s),
                          s_logins := s_logins s @ accepted_logins (connect_result w) effs \<rparr>
             in (case err of
                   Some e \<Rightarrow> serve (s1 \<lparr> s_count := s_count s - 1 \<rparr>) (Inl e)
                 | None \<Rightarrow>
                     (case connects effs of
                        [] \<Rightarrow> s1
                      | co # cs \<Rightarrow> serve s1 (Inr co))))
      else s)"
| "step s (Hand i) =
     (if i < length (s_available s) \<and> s_waiting s \<noteq> [] then
        serve (s \<lparr> s_available := take i (s_available s) @ drop (Suc i) (s_available s) \<rparr>)
          (Inr (s_available s ! i))
      else s)"
| "step s (ReleaseHandle i) =
     (if i < length (s_inUse s) then
        s \<lparr> s_inUse := take i (s_inUse s) @ drop (Suc i) (s_inUse s),
            s_available := s_available s @ [s_inUse s ! i] \<rparr>
      else s)"
| "step s (DestroyHandle i) =
     (if i < length (s_available s) then
        s \<lparr> s_available := take i (s_available s) @ drop (Suc i) (s_available s),
            s_count := s_count s - 1 \<rparr>
      else s)"

definition run :: "sim \<Rightarrow> event list \<Rightarrow> sim" where
  "run s evs = foldl step s evs"

text \<open>The pool right after its construction: nothing created, nothing in flight.\<close>

definition constructed :: "hdbpool \<Rightarrow> sim" where
  "constructed hp =
     \<lparr> s_pool = hp, s_count = 0, s_pending = [], s_waiting = [], s_available = [],
       s_inUse = [], s_got = [], s_logins = [] \<rparr>"

text \<open>
  Every handle of the pool: the available ones, the ones in use, and the ones that the
  callback of an acquirer has received.
\<close>

fun got_handles :: "(nat \<times> (error + handle)) list \<Rightarrow> handle list" where
  "got_handles [] = []"
| "got_handles ((a, Inr h) # rest) = h # got_handles rest"
| "got_handles ((a, Inl e) # rest) = got_handles rest"

definition handles :: "sim \<Rightarrow> handle list" where
  "handles s = s_available s @ s_inUse s @ got_handles (s_got s)"

text \<open>
  The server behaves as the pool's comments expect: every accepted login names a user,
  and an accepted assertion login comes with a session cookie.
\<close>

fun served :: "sim \<Rightarrow> event \<Rightarrow> bool" where
  "served s (FinishCreate i w) =
     (case connect_result w of
        Connected u c \<Rightarrow>
          u \<noteq> [] \<and> (if i < length (s_pending s) \<and> s_pending s ! i = None then truthy c else True)
      | ConnectError code msg \<Rightarrow> True)"
| "served s e = True"

fun served_all :: "sim \<Rightarrow> event list \<Rightarrow> bool" where
  "served_all s [] = True"
| "served_all s (e # es) = (served s e \<and> served_all (step s e) es)"

definition assertion_logins :: "sim \<Rightarrow> (connOpts \<times> string option) list" where
  "assertion_logins s = filter (\<lambda>l. c_method (fst l) = ''assertion'') (s_logins s)"

text \<open>A login that opened the session of the cookie \<open>ck\<close>, or joined it by presenting \<open>ck\<close>.\<close>

definition same_session :: "string option \<Rightarrow> connOpts \<Rightarrow> bool" where
  "same_session ck co =
     (c_method co = ''assertion'' \<or> (c_method co = ''sessionCookie'' \<and> c_sessionCookie co = ck))"

text \<open>
  What a successful connection leaves in the pool (lines 182-198), and the two invariants
  of a run: the factory's \<open>max\<close> before and after the first accepted login, and the phases
  of a pool that starts with an assertion only.
\<close>

definition login :: "hdbpool \<Rightarrow> connOpts \<Rightarrow> string \<Rightarrow> string option \<Rightarrow> hdbpool" where
  "login hp co u c =
     hp \<lparr> hp_options :=
            (if c_method co = ''assertion'' \<and> truthy c
             then (hp_options hp) \<lparr> user := Some u, sessionCookie := c \<rparr>
             else (hp_options hp) \<lparr> user := Some u \<rparr>),
          cl_user := u, f_max := maxPoolSize (hp_options hp) \<rparr>"

definition max_inv :: "options \<Rightarrow> sim \<Rightarrow> bool" where
  "max_inv opts s =
     (maxPoolSize (hp_options (s_pool s)) = maxPoolSize opts
      \<and> f_min (s_pool s) = 0
      \<and> f_max (s_pool s) = (if s_logins s = [] then Some 1 else maxPoolSize opts)
      \<and> (s_logins s = [] \<longrightarrow>
            s_count s = length (s_pending s) \<and> s_count s \<le> 1 \<and> handles s = [])
      \<and> list_all (\<lambda>h. h \<in> set (map fst (s_logins s))) (handles s))"

definition cookie_pending :: "string option \<Rightarrow> connOpts option \<Rightarrow> bool" where
  "cookie_pending ck p =
     (case p of None \<Rightarrow> False
      | Some co \<Rightarrow> c_method co = ''sessionCookie'' \<and> c_sessionCookie co = ck)"

definition phase_inv :: "sim \<Rightarrow> bool" where
  "phase_inv s =
     (\<not> truthy (password (hp_options (s_pool s)))
      \<and> truthy_assertion (assertion (hp_options (s_pool s)))
      \<and> (if s_logins s = []
         then \<not> truthy (sessionCookie (hp_options (s_pool s)))
              \<and> list_all (\<lambda>p. p = None) (s_pending s)
         else map snd (assertion_logins s) = [sessionCookie (hp_options (s_pool s))]
              \<and> truthy (user (hp_options (s_pool s)))
              \<and> truthy (sessionCookie (hp_options (s_pool s)))
              \<and> list_all (cookie_pending (sessionCookie (hp_options (s_pool s)))) (s_pending s)
              \<and> list_all (same_session (sessionCookie (hp_options (s_pool s))))
                   (map fst (s_logins s))))"

subsection \<open>The query dispatcher\<close>

text \<open>
  \<open>query\<close> (lines 258-359) runs as a chain of callbacks. The model is a state machine over
  the events that call them: the pool hands over a handle (or the factory's error), the
  statement is prepared, the statement has run, the streams have ended, and the request
  emits \<open>close\<close>. The state holds what the closures hold: whether \<open>reqQueue[id]\<close> is still
  there, whether \<open>closeCb\<close> is registered on the request, the local variables \<open>start\<close> and
  \<open>execStart\<close>, and the trace of what was done to the pool, the response and the caller's
  callback. Times are milliseconds (\<open>+new Date()\<close>). The piping of the streams is not
  modelled, only its end, which calls \<open>exCb\<close> (lines 424, 455, 458).
\<close>

datatype jsnum = Num int | NaN

text \<open>Subtraction of numbers: with an operand \<open>undefined\<close> the result is \<open>NaN\<close>.\<close>

definition js_minus :: "int option \<Rightarrow> int option \<Rightarrow> jsnum" where
  "js_minus a b = (case a of None \<Rightarrow> NaN | Some x \<Rightarrow> (case b of None \<Rightarrow> NaN | Some y \<Rightarrow> Num (x - y)))"

text \<open>
  What \<open>query\<close> does to the outside: \<open>pool.release\<close>, the caller's callback (its first
  argument \<open>None\<close> when it is \<open>null\<close> or another falsy value), a header or the body of the
  response, and an exception thrown inside a callback of the client, which nothing
  catches.
\<close>

datatype action =
    Release
  | Cb "error option" "string option"
  | SetHeader string jsnum
  | Send string
  | Throw string

datatype querymode = EXEC | META | STREAM

datatype phase = Waiting | Preparing | Executing | Streaming | Finished

record qconf =
  q_me :: hdbpool
  q_mode :: querymode
  q_req :: bool
  q_resp :: bool
  q_doPrep :: bool
  q_streams :: bool

record qstate =
  q_open :: bool
  q_closeCb :: bool
  q_phase :: phase
  q_start :: "int option"
  q_execStart :: "int option"
  q_trace :: "action list"

text \<open>
  The answer of \<open>statement.exec\<close> (line 366): an error, the rows as the text
  \<open>JSON.stringify\<close> gives (\<open>None\<close> when \<open>rows\<close> is falsy), and \<open>dummyRows\<close> (\<open>None\<close> when
  falsy), of which the code reads the property \<open>errmsg\<close> of the first row: falsy, a text
  that \<open>JSON.parse\<close> rejects, or the text of \<open>null\<close>, of another primitive (kept as its
  text, with its truthiness) or of an object. Of an object the model keeps whether its
  \<open>status\<close> is \<open>'success'\<close>, its text, and its \<open>code\<close> and \<open>message\<close> if it has them.
\<close>

record status_payload =
  sp_success :: bool
  sp_text :: string
  sp_code :: "int option"
  sp_message :: "string option"

datatype errmsg =
    NoErrmsg
  | Unparsable
  | ParsedNull
  | ParsedPrimitive string bool
  | ParsedObject status_payload

record exec_answer =
  x_err :: "error option"
  x_rows :: "string option"
  x_dummyRows :: "errmsg list option"

datatype qevent =
    Acquired "error option" int
  | Prepared "error option"
  | ExecAnswer exec_answer int
  | ExecuteAnswer "error option" string int
  | StreamEnd "error option"
  | Close

text \<open>\<open>setupRespHeader\<close>, lines 464-470; \<open>now\<close> is \<open>+new Date()\<close>.\<close>

definition setupRespHeader :: "options \<Rightarrow> int option \<Rightarrow> int option \<Rightarrow> bool \<Rightarrow> int \<Rightarrow> action list" where
  "setupRespHeader opts start execStart resp now =
     (if resp then
        [SetHeader (or_else (resphPrefix opts) [] @ ''query-time'') (js_minus (Some now) execStart),
         SetHeader (or_else (resphPrefix opts) [] @ ''waiting-time'') (js_minus execStart start)]
      else [])"

text \<open>
  Lines 362 and 397 read \<open>this.start\<close> and \<open>this.execStart\<close>. The constructor gives the
  object \<open>reqQueue\<close>, \<open>env\<close>, \<open>user\<close>, \<open>options\<close> and \<open>pool\<close> (lines 90-93, 110), and \<open>query\<close>
  keeps its two times in local variables (lines 266-267, 287, 320): nothing ever assigns
  these two properties, so both reads give \<open>undefined\<close>.
\<close>

definition this_start :: "hdbpool \<Rightarrow> int option" where
  "this_start me = None"

definition this_execStart :: "hdbpool \<Rightarrow> int option" where
  "this_execStart me = None"

text \<open>\<open>exCb\<close>, lines 329-340.\<close>

definition exCb :: "qstate \<Rightarrow> error option \<Rightarrow> string option \<Rightarrow> qstate" where
  "exCb st err rows =
     st \<lparr> q_closeCb := False, q_phase := Finished,
          q_trace := q_trace st @ [Release, Cb err rows] \<rparr>"

text \<open>
  Lines 373-385. \<open>exception\<close> after the block: \<open>dummyRows\<close> itself (an array, an object
  without \<open>code\<close> or \<open>message\<close>) when the text does not parse, else what was parsed, unless
  its \<open>status\<close> is \<open>'success'\<close>; then the parsed object becomes \<open>rows\<close>.
\<close>

fun exception_of :: "errmsg \<Rightarrow> error option" where
  "exception_of NoErrmsg = None"
| "exception_of Unparsable = Some (ErrObject None None None)"
| "exception_of ParsedNull = None"
| "exception_of (ParsedPrimitive text t) = (if t then Some (ErrString text) else None)"
| "exception_of (ParsedObject sp) =
     (if sp_success sp then None else Some (ErrObject (sp_code sp) (sp_message sp) None))"

fun rows_of :: "errmsg \<Rightarrow> string option \<Rightarrow> string option" where
  "rows_of (ParsedObject sp) rows = (if sp_success sp then Some (sp_text sp) else rows)"
| "rows_of m rows = rows"

text \<open>
  The callback of \<open>execQuery\<close>, lines 366-393. Line 374 reads \<open>dummyRows[0].errmsg\<close>, which
  throws a TypeError when \<open>dummyRows\<close> is an empty array, and line 381 reads
  \<open>exception.status\<close>, which throws one when the text parsed to \<open>null\<close>: the headers are set
  by then, the handle is not released and the caller is not called.
\<close>

definition execQuery :: "qconf \<Rightarrow> qstate \<Rightarrow> exec_answer \<Rightarrow> int \<Rightarrow> qstate" where
  "execQuery c st ans now =
     (case x_err ans of
        Some e \<Rightarrow> exCb st (Some e) None
      | None \<Rightarrow>
          let hdrs = setupRespHeader (hp_options (q_me c)) (this_start (q_me c))
                       (this_execStart (q_me c)) (q_resp c) now;
              first = (case x_dummyRows ans of
                         None \<Rightarrow> Some NoErrmsg
                       | Some [] \<Rightarrow> None
                       | Some (m # ms) \<Rightarrow> if m = ParsedNull then None else Some m)
          in (case first of
                None \<Rightarrow>
                  st \<lparr> q_phase := Finished, q_trace := q_trace st @ hdrs @ [Throw ''TypeError''] \<rparr>
              | Some m \<Rightarrow>
                  let exception = exception_of m;
                      rows = rows_of m (x_rows ans);
                      sends = (if exception = None \<and> q_resp c
                               then [Send (case rows of Some r \<Rightarrow> r | None \<Rightarrow> [])] else [])
                  in exCb (st \<lparr> q_trace := q_trace st @ hdrs @ sends \<rparr>) exception rows))"

text \<open>The callback of \<open>executeQuery\<close>, lines 400-461.\<close>

definition executeQuery :: "qconf \<Rightarrow> qstate \<Rightarrow> error option \<Rightarrow> string \<Rightarrow> int \<Rightarrow> qstate" where
  "executeQuery c st err metadata now =
     (case err of
        Some e \<Rightarrow> exCb st (Some e) None
      | None \<Rightarrow>
          let hdrs = setupRespHeader (hp_options (q_me c)) (this_start (q_me c))
                       (this_execStart (q_me c)) (q_resp c) now
          in if q_mode c = META
             then exCb (st \<lparr> q_trace := q_trace st @ hdrs
                              @ (if q_resp c then [Send metadata] else []) \<rparr>)
                    None (Some metadata)
             else st \<lparr> q_phase := Streaming, q_trace := q_trace st @ hdrs \<rparr>)"

text \<open>
  \<open>query\<close> up to \<open>pool.acquire\<close> (lines 258-289); \<open>initRequest\<close> (lines 538-580) registers
  the request in \<open>reqQueue\<close> and never fails.
\<close>

definition query :: "qconf \<Rightarrow> int \<Rightarrow> qstate" where
  "query c now =
     (if q_mode c = STREAM \<and> \<not> q_streams c
      then \<lparr> q_open = True, q_closeCb = False, q_phase = Finished, q_start = None,
             q_execStart = None,
             q_trace = [Cb (Some (ErrString ''streams[] is missing or empty'')) None] \<rparr>
      else \<lparr> q_open = True, q_closeCb = False, q_phase = Waiting, q_start = Some now,
             q_execStart = None, q_trace = [] \<rparr>)"

text \<open>
  One event. \<open>Acquired\<close> is the callback of \<open>pool.acquire\<close> (lines 289-357), \<open>Prepared\<close> the
  callback of \<open>client.prepare\<close> (lines 344-352), \<open>Close\<close> the request's \<open>close\<close> event, heard
  by the listener of \<open>initRequest\<close> (lines 563-566) and, once registered, by \<open>closeCb\<close>
  (lines 306-311). An event that no callback waits for changes nothing.
\<close>

fun qstep :: "qconf \<Rightarrow> qstate \<Rightarrow> qevent \<Rightarrow> qstate" where
  "qstep c st (Acquired err now) =
     (if q_phase st \<noteq> Waiting then st
      else case err of
        Some e \<Rightarrow> st \<lparr> q_phase := Finished, q_trace := q_trace st @ [Cb (Some e) None] \<rparr>
      | None \<Rightarrow>
          if \<not> q_open st
          then st \<lparr> q_phase := Finished, q_trace := q_trace st @ [Release, Cb None None] \<rparr>
          else st \<lparr> q_closeCb := q_req c, q_execStart := Some now,
                    q_phase := (if q_doPrep c then Preparing else Executing) \<rparr>)"
| "qstep c st (Prepared err) =
     (if q_phase st \<noteq> Preparing then st
      else case err of
        Some e \<Rightarrow> st \<lparr> q_phase := Finished, q_trace := q_trace st @ [Release, Cb (Some e) None] \<rparr>
      | None \<Rightarrow> st \<lparr> q_phase := Executing \<rparr>)"
| "qstep c st (ExecAnswer ans now) =
     (if q_phase st = Executing \<and> q_mode c = EXEC then execQuery c st ans now else st)"
| "qstep c st (ExecuteAnswer err metadata now) =
     (if q_phase st = Executing \<and> q_mode c \<noteq> EXEC then executeQuery c st err metadata now else st)"
| "qstep c st (StreamEnd err) =
     (if q_phase st = Streaming then exCb st err None else st)"
| "qstep c st Close =
     (if \<not> q_req c then st
      else if q_closeCb st
      then st \<lparr> q_open := False, q_trace := q_trace st @ [Release, Cb None None] \<rparr>
      else st \<lparr> q_open := False \<rparr>)"

definition dispatch :: "qconf \<Rightarrow> int \<Rightarrow> qevent list \<Rightarrow> qstate" where
  "dispatch c now evs = foldl (qstep c) (query c now) evs"

text \<open>The headers set on the response.\<close>

fun headers :: "action list \<Rightarrow> (string \<times> jsnum) list" where
  "headers [] = []"
| "headers (SetHeader n v # as) = (n, v) # headers as"
| "headers (a # as) = headers as"

section \<open>hdbPool.js: delimiter-separated output\<close>

text \<open>
  \<open>String.prototype.indexOf\<close>: the position of the first occurrence, or -1.
\<close>

fun indexOf_from :: "nat \<Rightarrow> string \<Rightarrow> string \<Rightarrow> int" where
  "indexOf_from i [] pat = (if pat = [] then int i else - 1)"
| "indexOf_from i (c # cs) pat =
     (if prefix pat (c # cs) then int i else indexOf_from (Suc i) cs pat)"

definition indexOf :: "string \<Rightarrow> string \<Rightarrow> int" where
  "indexOf v pat = indexOf_from 0 v pat"

definition dquote :: char where
  "dquote = CHR 0x22"

definition CR :: char where
  "CR = CHR 0x0D"

definition LF :: char where
  "LF = CHR 0x0A"

text \<open>\<open>v.match(/\r?\n|\r/)\<close> finds a match exactly when \<open>v\<close> holds a line feed or a carriage return.\<close>

definition has_linebreak :: "string \<Rightarrow> bool" where
  "has_linebreak v = (LF \<in> set v \<or> CR \<in> set v)"

text \<open>\<open>v.replace(ESCAPE_REGEXP, '""')\<close>: every double quote is doubled.\<close>

fun escape :: "string \<Rightarrow> string" where
  "escape [] = []"
| "escape (c # cs) = (if c = dquote then dquote # dquote # escape cs else c # escape cs)"

text \<open>\<open>dsvquote\<close>, lines 610-617, on a string.\<close>

definition dsvquote :: "string \<Rightarrow> string \<Rightarrow> string" where
  "dsvquote v sep =
     (if v \<noteq> [] \<and> (indexOf v sep \<ge> 0 \<or> indexOf v [dquote] \<ge> 0 \<or> has_linebreak v)
      then [dquote] @ escape v @ [dquote]
      else v)"

text \<open>
  A value of a row as the stringifier meets it: \<open>undefined\<close> for a column the row does not
  have, \<open>null\<close>, or a value shown as its text. \<open>ifnull\<close>, lines 619-621; \<open>dsvquote\<close> returns
  a falsy value as it is; \<open>Array.join\<close> writes nothing for \<open>undefined\<close> and \<open>null\<close>.
\<close>

datatype jsvalue = Undefined | JsNull | Str string

definition ifnull :: "jsvalue \<Rightarrow> jsvalue" where
  "ifnull v = (case v of JsNull \<Rightarrow> Str [CHR 0x5C, CHR ''N''] | _ \<Rightarrow> v)"

definition dsvquote_value :: "jsvalue \<Rightarrow> string \<Rightarrow> jsvalue" where
  "dsvquote_value v sep = (case v of Str s \<Rightarrow> Str (dsvquote s sep) | _ \<Rightarrow> v)"

definition join_text :: "jsvalue \<Rightarrow> string" where
  "join_text v = (case v of Str s \<Rightarrow> s | _ \<Rightarrow> [])"

fun join :: "string \<Rightarrow> string list \<Rightarrow> string" where
  "join sep [] = []"
| "join sep [x] = x"
| "join sep (x # y # zs) = x @ sep @ join sep (y # zs)"

text \<open>
  A column of the metadata. Line 491 sets \<open>column.dataTypeName\<close> to
  \<open>hdbTypeCodes[column.dataType]\<close>; \<open>hdbTypeCodes\<close> (lines 12-13) is the inverted table of
  type codes of the database client, which is not part of the sources: \<open>codes\<close> below. A
  code the table lacks has the name \<open>undefined\<close>.
\<close>

record column =
  columnDisplayName :: string
  dataType :: nat

definition dataTypeName :: "(nat \<Rightarrow> string option) \<Rightarrow> column \<Rightarrow> string option" where
  "dataTypeName codes col = codes (dataType col)"

definition DSV_QUOTE :: "string list" where
  "DSV_QUOTE = [''CHAR'', ''VARCHAR'', ''VARCHAR1'', ''VARCHAR2'', ''STRING'', ''NSTRING'',
                ''NCHAR'', ''NVARCHAR'', ''SHORTTEXT'', ''TEXT'']"

definition DSV_FORMAT :: "string list" where
  "DSV_FORMAT = [''DAYDATE'', ''DATE'', ''TIMESTAMP'', ''TIMESTAMP_TZ'']"

text \<open>Lines 495 and 499: the type name is a key of the table.\<close>

definition quoted :: "(nat \<Rightarrow> string option) \<Rightarrow> column \<Rightarrow> bool" where
  "quoted codes col =
     (case dataTypeName codes col of None \<Rightarrow> False | Some n \<Rightarrow> n \<in> set DSV_QUOTE)"

definition formatted :: "(nat \<Rightarrow> string option) \<Rightarrow> column \<Rightarrow> bool" where
  "formatted codes col =
     (case dataTypeName codes col of None \<Rightarrow> False | Some n \<Rightarrow> n \<in> set DSV_FORMAT)"

definition inherited :: "(nat \<Rightarrow> string option) \<Rightarrow> column \<Rightarrow> bool" where
  "inherited codes col =
     (case dataTypeName codes col of None \<Rightarrow> False | Some n \<Rightarrow> n \<in> set Object_prototype)"

text \<open>
  What a call gives: a value, an exception (by its name), or code that the model does not
  follow.
\<close>

datatype 'a outcome = Returns 'a | Throws string | OtherCode

text \<open>
  \<open>iso8601\<close>, line 42. The file never requires \<open>moment\<close> and runs in strict mode, so the
  call on a value that is not the null marker throws a ReferenceError.
\<close>

definition iso8601 :: "jsvalue \<Rightarrow> jsvalue outcome" where
  "iso8601 d = (if d = Str [CHR 0x5C, CHR ''N''] then Returns d else Throws ''ReferenceError'')"

type_synonym dsvrow = "(string \<times> string option) list"

definition row_get :: "dsvrow \<Rightarrow> string \<Rightarrow> jsvalue" where
  "row_get r name =
     (case map_of r name of None \<Rightarrow> Undefined | Some None \<Rightarrow> JsNull | Some (Some s) \<Rightarrow> Str s)"

text \<open>
  \<open>createDsvStringifier\<close> builds the source text of a function, one \<open>line.push\<close> for every
  column (lines 489-510), and hands it to \<open>eval\<close> (line 514). The column's name is pasted
  between apostrophes (line 493), the separator between apostrophes (line 496, for a
  quoted column) and between double quotes (line 510). A text pasted between two quote
  characters is a string literal of that very text when it holds neither that quote
  character nor a backslash nor a line break.
\<close>

definition apostrophe :: char where
  "apostrophe = CHR 0x27"

definition literal :: "char \<Rightarrow> string \<Rightarrow> bool" where
  "literal q t = (q \<notin> set t \<and> CHR 0x5C \<notin> set t \<and> LF \<notin> set t \<and> CR \<notin> set t)"

definition column_key :: "column \<Rightarrow> string" where
  "column_key col =
     (if columnDisplayName col = [apostrophe, apostrophe] then ''UnknownColumn''
      else columnDisplayName col)"

text \<open>
  The text handed to \<open>eval\<close> is the function meant when every pasted text is such a
  literal and no type name is one that \<open>DSV_QUOTE\<close> and \<open>DSV_FORMAT\<close> inherit (it would
  select a method of \<open>Object.prototype\<close> in line 500). Otherwise \<open>eval\<close> throws a
  SyntaxError or other code runs, which the model does not follow.
\<close>

definition generated :: "(nat \<Rightarrow> string option) \<Rightarrow> column list \<Rightarrow> string \<Rightarrow> bool" where
  "generated codes metadata sep =
     (literal dquote sep
      \<and> list_all (\<lambda>col. literal apostrophe (column_key col) \<and> \<not> inherited codes col
                        \<and> (if quoted codes col then literal apostrophe sep else True)) metadata)"

text \<open>
  One line of the generated function, lines 493-507: the value pushed for a column. For a
  column of type code 13, \<open>.toString('hex')\<close> is applied to the number that \<open>line.push\<close>
  returns, which throws a RangeError (the radix is not a number from 2 to 36).
\<close>

definition dsv_value :: "(nat \<Rightarrow> string option) \<Rightarrow> string \<Rightarrow> dsvrow \<Rightarrow> column \<Rightarrow> jsvalue outcome" where
  "dsv_value codes sep r col =
     (let val0 = ifnull (row_get r (column_key col));
          val1 = (if quoted codes col then dsvquote_value val0 sep else val0);
          val2 = (if formatted codes col then iso8601 val1 else Returns val1)
      in (case val2 of
            Returns v \<Rightarrow> if dataType col = 13 then Throws ''RangeError'' else Returns v
          | Throws e \<Rightarrow> Throws e
          | OtherCode \<Rightarrow> OtherCode))"

text \<open>The lines run in the order of the columns; the first exception ends the call.\<close>

fun pushed :: "jsvalue outcome list \<Rightarrow> string list outcome" where
  "pushed [] = Returns []"
| "pushed (Returns v # rest) =
     (case pushed rest of
        Returns vs \<Rightarrow> Returns (join_text v # vs)
      | Throws e \<Rightarrow> Throws e
      | OtherCode \<Rightarrow> OtherCode)"
| "pushed (Throws e # rest) = Throws e"
| "pushed (OtherCode # rest) = OtherCode"

definition stringify :: "(nat \<Rightarrow> string option) \<Rightarrow> string \<Rightarrow> column list \<Rightarrow> dsvrow \<Rightarrow> string outcome" where
  "stringify codes sep metadata r =
     (case pushed (map (dsv_value codes sep r) metadata) of
        Returns vs \<Rightarrow> Returns (join sep vs)
      | Throws e \<Rightarrow> Throws e
      | OtherCode \<Rightarrow> OtherCode)"

text \<open>
  \<open>createDsvStringifier\<close> with the default separator of line 481, applied to a row; the two
  exported ones.
\<close>

definition createDsvStringifier ::
  "(nat \<Rightarrow> string option) \<Rightarrow> column list \<Rightarrow> string \<Rightarrow> dsvrow \<Rightarrow> string outcome" where
  "createDsvStringifier codes metadata sep r =
     (let sep' = (if sep = [] then '';'' else sep)
      in if generated codes metadata sep' then stringify codes sep' metadata r else OtherCode)"

definition createCsvStringifier ::
  "(nat \<Rightarrow> string option) \<Rightarrow> column list \<Rightarrow> dsvrow \<Rightarrow> string outcome" where
  "createCsvStringifier codes metadata = createDsvStringifier codes metadata '',''"

definition createSsvStringifier ::
  "(nat \<Rightarrow> string option) \<Rightarrow> column list \<Rightarrow> dsvrow \<Rightarrow> string outcome" where
  "createSsvStringifier codes metadata = createDsvStringifier codes metadata '';''"

text \<open>
  A reader of one record by the grammar of RFC 4180 (the repository's tests read with
  \<open>d3.csv.parse\<close>): a field that starts with a double quote runs to the closing quote, a
  doubled quote inside it standing for one; any other field runs to the next separator or
  line break. \<open>acc\<close> holds the field read so far, reversed.
\<close>

datatype reading = FieldStart | Unquoted | Quoted | QuoteSeen

fun rfc4180 :: "char \<Rightarrow> reading \<Rightarrow> string \<Rightarrow> string \<Rightarrow> string list" where
  "rfc4180 sep m acc [] = [rev acc]"
| "rfc4180 sep FieldStart acc (c # cs) =
     (if c = dquote then rfc4180 sep Quoted acc cs
      else if c = sep then rev acc # rfc4180 sep FieldStart [] cs
      else if c = CR \<or> c = LF then [rev acc]
      else rfc4180 sep Unquoted (c # acc) cs)"
| "rfc4180 sep Unquoted acc (c # cs) =
     (if c = sep then rev acc # rfc4180 sep FieldStart [] cs
      else if c = CR \<or> c = LF then [rev acc]
      else rfc4180 sep Unquoted (c # acc) cs)"
| "rfc4180 sep Quoted acc (c # cs) =
     (if c = dquote then rfc4180 sep QuoteSeen acc cs
      else rfc4180 sep Quoted (c # acc) cs)"
| "rfc4180 sep QuoteSeen acc (c # cs) =
     (if c = dquote then rfc4180 sep Quoted (dquote # acc) cs
      else if c = sep then rev acc # rfc4180 sep FieldStart [] cs
      else if c = CR \<or> c = LF then [rev acc]
      else rfc4180 sep Unquoted (c # acc) cs)"

definition parse_record :: "char \<Rightarrow> string \<Rightarrow> string list" where
  "parse_record sep line = rfc4180 sep FieldStart [] line"

section \<open>transformLobs.js: large objects in streamed rows\<close>

text \<open>
  A row of a result set is an object: its columns in the order of \<open>Object.keys\<close>, each with
  a value. A value is \<open>null\<close>, a plain value (shown as its text), or a \<open>Lob\<close>, whose read
  stream hands over chunks and then either ends or fails. A chunk of the stream is one
  row, or an array of rows.
\<close>

datatype lob = LobEnds "string list" | LobFails "string list"

datatype cell = Null | Plain string | LobValue lob

type_synonym row = "(string \<times> cell) list"

datatype chunk = Single row | Batch "row list"

text \<open>
  Lines 46-72, one column: the events of the Lob's read stream decide the new value.
  \<open>decode\<close> is \<open>Buffer.toString(encoding)\<close> on the concatenated chunks.
\<close>

definition readLob :: "(string \<Rightarrow> string) \<Rightarrow> lob \<Rightarrow> cell" where
  "readLob decode l =
     (case l of
        LobFails chunks \<Rightarrow> Plain ''Error while reading Lob!''
      | LobEnds chunks \<Rightarrow> Plain (decode (concat chunks)))"

text \<open>
  \<open>transform\<close>, lines 40-76: \<open>async.forEachOf\<close> visits every column of \<open>data\<close> with the value
  it had at the start and assigns \<open>data[column]\<close> for a Lob. \<open>AList.update\<close> is the
  assignment to a property: the column keeps its place. (A falsy \<open>data\<close>, line 41, is not a
  row; the result set never hands one over.)
\<close>

fun forEachOf :: "(string \<Rightarrow> string) \<Rightarrow> row \<Rightarrow> row \<Rightarrow> row" where
  "forEachOf decode [] data = data"
| "forEachOf decode ((column, v) # rest) data =
     forEachOf decode rest
       (case v of
          LobValue l \<Rightarrow> AList.update column (readLob decode l) data
        | _ \<Rightarrow> data)"

definition transform :: "(string \<Rightarrow> string) \<Rightarrow> row \<Rightarrow> row" where
  "transform decode data = forEachOf decode data data"

text \<open>
  \<open>_transform\<close>, lines 15-38: what is pushed for one chunk. An empty array takes the branch
  of a single row (line 18 tests \<open>chunk.length\<close>), where it has no column to visit.
\<close>

definition TransformLobs_transform :: "(string \<Rightarrow> string) \<Rightarrow> chunk \<Rightarrow> chunk" where
  "TransformLobs_transform decode ch =
     (case ch of
        Batch rs \<Rightarrow> if rs \<noteq> [] then Batch (map (transform decode) rs) else Batch []
      | Single r \<Rightarrow> Single (transform decode r))"

text \<open>The transform stream: one push for every chunk written, in order.\<close>

definition TransformLobs :: "(string \<Rightarrow> string) \<Rightarrow> chunk list \<Rightarrow> chunk list" where
  "TransformLobs decode chunks = map (TransformLobs_transform decode) chunks"

text \<open>What the spec asks of one value.\<close>

definition materialized :: "(string \<Rightarrow> string) \<Rightarrow> cell \<Rightarrow> cell" where
  "materialized decode v =
     (case v of
        LobValue (LobFails chunks) \<Rightarrow> Plain ''Error while reading Lob!''
      | LobValue (LobEnds chunks) \<Rightarrow> Plain (decode (concat chunks))
      | _ \<Rightarrow> v)"

fun is_lob :: "cell \<Rightarrow> bool" where
  "is_lob (LobValue l) = True"
| "is_lob v = False"

section \<open>hdbMetaPool.js: environments and users\<close>

text \<open>
  \<open>Conf.db\<close> is one object: the property \<open>default\<close> names the default environment, every
  other property of its own is the configuration of one environment. \<open>Conf_db\<close> is the
  lookup \<open>Conf.db[key]\<close>, which also finds what the object inherits.
\<close>

record db_env =
  HOST :: "string option"
  PORT :: "nat option"
  USER :: "string option"
  PASS :: "string option"
  DEFAULT_SCHEMA :: "string option"
  SCHEMA :: "string option"
  POOL_SIZE :: "nat option"
  POOL_TTL_MS :: "nat option"

record conf =
  usernamePrefix :: string
  sourceSysField :: string
  HEADER_PREFIX :: "string option"
  db_default :: "string option"
  db_envs :: "(string \<times> db_env) list"

datatype db_entry = DefaultName string | EnvConf db_env | Inherited

definition Conf_db :: "conf \<Rightarrow> string \<Rightarrow> db_entry option" where
  "Conf_db c key =
     (if key = ''default'' then map_option DefaultName (db_default c)
      else case map_of (db_envs c) key of
             Some d \<Rightarrow> Some (EnvConf d)
           | None \<Rightarrow> if key \<in> set Object_prototype then Some Inherited else None)"

definition truthy_entry :: "db_entry option \<Rightarrow> bool" where
  "truthy_entry e =
     (case e of
        None \<Rightarrow> False
      | Some (DefaultName s) \<Rightarrow> s \<noteq> []
      | Some (EnvConf d) \<Rightarrow> True
      | Some Inherited \<Rightarrow> True)"

text \<open>The configuration written in the source, lines 76-108.\<close>

definition Conf :: conf where
  "Conf =
     \<lparr> usernamePrefix = [], sourceSysField = ''source-sys'', HEADER_PREFIX = Some ''x-hdb-'',
       db_default = Some ''HDB'',
       db_envs = [(''HDB'', \<lparr> HOST = Some ''hdbhost'', PORT = Some 30015, USER = Some ''USER'',
                               PASS = Some ''****'', DEFAULT_SCHEMA = Some ''USER'',
                               SCHEMA = None, POOL_SIZE = Some 3, POOL_TTL_MS = Some 30000 \<rparr>)] \<rparr>"

text \<open>
  The request as the pool manager reads it. \<open>passport_user\<close> is \<open>req.session.passport.user\<close>
  (absent when \<open>passport\<close> or \<open>user\<close> is), with the entry \<open>user[env]\<close> that caches the HANA
  user and session cookie of an environment.
\<close>

record passport_env =
  HANAUser :: "string option"
  HANAsessionCookie :: "string option"

record passport_user =
  pu_nameID :: "string option"
  pu_assertion :: "string option"
  pu_env :: "string \<rightharpoonup> passport_env"

record session =
  ses_id :: "string option"
  ses_field :: "string \<rightharpoonup> string"
  returnTo :: "string option"
  passport :: "passport_user option"

record request =
  r_session :: "session option"
  r_headers :: "(string \<rightharpoonup> string) option"
  r_query :: "(string \<rightharpoonup> string) option"
  r_body :: "(string \<rightharpoonup> string) option"
  SAMLAuthenticated :: bool

definition field :: "(string \<rightharpoonup> string) option \<Rightarrow> string \<Rightarrow> string option" where
  "field obj key = (case obj of None \<Rightarrow> None | Some m \<Rightarrow> m key)"

text \<open>
  \<open>getEnvFromRequest\<close>, lines 501-527. \<open>url_query\<close> is \<open>url.parse(..., true).query\<close> of Node's
  url module.
\<close>

definition getEnvFromRequest ::
  "conf \<Rightarrow> (string \<Rightarrow> string \<rightharpoonup> string) \<Rightarrow> request option \<Rightarrow> string" where
  "getEnvFromRequest c url_query req =
     (let f = sourceSysField c;
          env0 = or_else (db_default c) ''HDB'';
          env1 = (case req of
                    Some r \<Rightarrow>
                      (case r_session r of
                         Some s \<Rightarrow> if truthy (ses_field s f) then the (ses_field s f) else env0
                       | None \<Rightarrow> env0)
                  | None \<Rightarrow> env0);
          env2 = (case req of
                    Some r \<Rightarrow>
                      if truthy (field (r_headers r) f) then the (field (r_headers r) f) else env1
                  | None \<Rightarrow> env1);
          env3 = (case req of
                    Some r \<Rightarrow>
                      if truthy (field (r_query r) f) then the (field (r_query r) f)
                      else (case r_session r of
                              Some s \<Rightarrow>
                                if truthy (returnTo s)
                                then (if truthy (url_query (the (returnTo s)) f)
                                      then the (url_query (the (returnTo s)) f) else env2)
                                else env2
                            | None \<Rightarrow> env2)
                  | None \<Rightarrow> env2);
          env4 = (case req of
                    Some r \<Rightarrow>
                      if truthy (field (r_body r) f) then the (field (r_body r) f) else env3
                  | None \<Rightarrow> env3)
      in env4)"

text \<open>\<open>/^[A-Za-z0-9_]+$/\<close>, line 205.\<close>

definition env_syntax :: "string \<Rightarrow> bool" where
  "env_syntax e =
     (e \<noteq> [] \<and>
      list_all (\<lambda>ch. ch \<in> set ''ABCDEFGHIJKLMNOPQRSTUVWXYZabcdefghijklmnopqrstuvwxyz0123456789_'') e)"

text \<open>
  \<open>initEnvPools\<close>, lines 156-198: one pool for every key of \<open>Conf.db\<close> but \<open>default\<close>. (The
  probe for the system fingerprint is left out.)
\<close>

definition envPoolOpts :: "conf \<Rightarrow> string \<Rightarrow> db_env \<Rightarrow> options" where
  "envPoolOpts c e d =
     \<lparr> host = HOST d, port = PORT d, env = Some e, user = USER d, password = PASS d,
       sessionCookie = None, assertion = None, maxPoolSize = POOL_SIZE d, minPoolSize = None,
       idleTimeoutMillis = Some (or_else_num (POOL_TTL_MS d) 30000), refreshIdle = None,
       defaultSchema = (if truthy (DEFAULT_SCHEMA d) then DEFAULT_SCHEMA d else SCHEMA d),
       resphPrefix = Some (or_else (HEADER_PREFIX c) ''x-hdb-'') \<rparr>"

definition initEnvPools :: "conf \<Rightarrow> (string \<times> created) list" where
  "initEnvPools c =
     map (\<lambda>(e, d). (e, fst (createPool (\<lambda>a. None) (envPoolOpts c e d))))
       (filter (\<lambda>(e, d). e \<noteq> ''default'') (db_envs c))"

text \<open>
  \<open>query\<close>, lines 201-217, up to the pool it hands the query to, and \<open>queryEnvPool\<close>, lines
  301-304: \<open>envPools[env][querymode]\<close> throws a TypeError when there is no such pool.
\<close>

datatype routed =
    Failed string
  | ReturnedNull
  | QueryUserPool string
  | QueryEnvPool string hdbpool
  | TypeError

definition queryEnvPool :: "(string \<times> created) list \<Rightarrow> string \<Rightarrow> routed" where
  "queryEnvPool envPools e =
     (case map_of envPools e of
        Some (Built p) \<Rightarrow> QueryEnvPool e p
      | _ \<Rightarrow> TypeError)"

definition hdbMetaPool_query ::
  "conf \<Rightarrow> (string \<times> created) list \<Rightarrow> (string \<Rightarrow> string \<rightharpoonup> string) \<Rightarrow> request option \<Rightarrow> bool \<Rightarrow> routed" where
  "hdbMetaPool_query c envPools url_query req cb =
     (let e = getEnvFromRequest c url_query req;
          invalid = (if cb then Failed (''invalid '' @ sourceSysField c @ '' value: '' @ e)
                     else ReturnedNull)
      in
      if e = [] then invalid
      else if \<not> env_syntax e then invalid
      else if \<not> truthy_entry (Conf_db c e) then invalid
      else if (case req of
                 Some r \<Rightarrow>
                   SAMLAuthenticated r \<and>
                   (case r_session r of Some s \<Rightarrow> passport s \<noteq> None | None \<Rightarrow> False)
               | None \<Rightarrow> False)
      then QueryUserPool e
      else queryEnvPool envPools e)"

subsection \<open>Failures of a query on a user pool\<close>

text \<open>
  The generic pool behind the pool of one user and environment, with its \<open>min\<close> and its
  size (\<open>getPoolSize()\<close>). The generic pool is the library's; the model takes from it that
  \<open>drain\<close> stops the pool and calls back once every handle is returned, and that
  \<open>destroyAllNow\<close> then destroys every handle. The registry's reference to the pool object
  is kept as its \<open>_authMethod\<close>; the callback of the query holds the object itself, whose
  generic pool is \<open>w_pool\<close> below.
\<close>

record genericPool =
  gp_min :: nat
  gp_size :: nat
  gp_draining :: bool

record userPool =
  up_authMethod :: string

definition drain :: "genericPool \<Rightarrow> genericPool" where
  "drain p = p \<lparr> gp_draining := True \<rparr>"

definition destroyAllNow :: "genericPool \<Rightarrow> genericPool" where
  "destroyAllNow p = p \<lparr> gp_size := 0 \<rparr>"

text \<open>
  An entry of \<open>userPools\<close>: its pools by environment (\<open>Some None\<close> is a reference set to
  \<open>null\<close>), the ids of its express sessions, and the time of the last access.
\<close>

record user_entry =
  ue_pools :: "string \<rightharpoonup> userPool option"
  ue_sessions :: "string list"
  ue_lastAccess :: int

text \<open>
  What the callback of lines 243-297 reads and writes: \<open>userPools\<close>, the request's session
  with the number of calls of \<open>session.save()\<close>, the pool of the query, and the size of each
  environment pool.
\<close>

record world =
  w_userPools :: "string \<rightharpoonup> user_entry"
  w_session :: "session option"
  w_saves :: nat
  w_pool :: genericPool
  w_envPoolSize :: "string \<rightharpoonup> nat"

datatype 'r called = Callback "error option" 'r | Threw

text \<open>Lines 245 and 248. \<open>indexOf(...) > 0\<close>: the text is found, and not at the very start.\<close>

definition isAuthFailed :: "error option \<Rightarrow> bool" where
  "isAuthFailed err = (case err of None \<Rightarrow> False | Some e \<Rightarrow> code_of e = Some 10)"

definition isMissingUser :: "error option \<Rightarrow> bool" where
  "isMissingUser err =
     (case err of
        None \<Rightarrow> False
      | Some e \<Rightarrow>
          code_of e = Some 591 \<and> truthy (message_of e)
          \<and> indexOf (the (message_of e)) ''Invalid principal id for principal $principalName$'' > 0)"

text \<open>\<open>delete error.assertion\<close>, line 259.\<close>

fun delete_assertion :: "error \<Rightarrow> error" where
  "delete_assertion (ErrObject c m a) = ErrObject c m None"
| "delete_assertion (ErrString s) = ErrString s"

text \<open>The HANA session cookie that the request's session caches for an environment.\<close>

definition cached_cookie :: "world \<Rightarrow> string \<Rightarrow> string option" where
  "cached_cookie w e =
     (case w_session w of
        Some s \<Rightarrow>
          (case passport s of
             Some u \<Rightarrow> (case pu_env u e of Some pe \<Rightarrow> HANAsessionCookie pe | None \<Rightarrow> None)
           | None \<Rightarrow> None)
      | None \<Rightarrow> None)"

text \<open>\<open>_clean\<close>, lines 263-271; it throws when the user is no longer in \<open>userPools\<close>.\<close>

definition clean :: "world \<Rightarrow> string \<Rightarrow> string \<Rightarrow> error \<Rightarrow> 'r \<Rightarrow> world \<times> 'r called" where
  "clean w userId e error result =
     (case w_userPools w userId of
        None \<Rightarrow> (w, Threw)
      | Some entry \<Rightarrow>
          let w1 = w \<lparr> w_userPools :=
                        (w_userPools w)(userId \<mapsto> entry \<lparr> ue_pools := (ue_pools entry)(e \<mapsto> None) \<rparr>) \<rparr>;
              w2 = (if truthy (cached_cookie w e) then
                      w1 \<lparr> w_session :=
                             map_option (\<lambda>s. s \<lparr> passport :=
                               map_option (\<lambda>u. u \<lparr> pu_env :=
                                 (pu_env u)(e \<mapsto> (the (pu_env u e)) \<lparr> HANAsessionCookie := None \<rparr>) \<rparr>)
                                 (passport s) \<rparr>) (w_session w),
                           w_saves := w_saves w + 1 \<rparr>
                    else w1)
          in (w2, Callback (Some error) result))"

text \<open>\<open>_drain\<close>, lines 258-281; \<open>delete\<close> on \<open>null\<close> throws a TypeError.\<close>

definition drain_and_clean :: "world \<Rightarrow> string \<Rightarrow> string \<Rightarrow> error option \<Rightarrow> 'r \<Rightarrow> world \<times> 'r called" where
  "drain_and_clean w userId e error result =
     (case error of
        None \<Rightarrow> (w, Threw)
      | Some err \<Rightarrow>
          let w1 = w \<lparr> w_pool := (w_pool w) \<lparr> gp_min := 0 \<rparr> \<rparr> in
          if gp_size (w_pool w1) = 0 then clean w1 userId e (delete_assertion err) result
          else clean (w1 \<lparr> w_pool := destroyAllNow (drain (w_pool w1)) \<rparr>) userId e
                 (delete_assertion err) result)"

text \<open>
  \<open>detectSAMLerror\<close>, lines 220-232: \<open>probe\<close> is the error of the \<open>CONNECT WITH SAML
  ASSERTION\<close> statement on the environment pool, \<open>None\<close> when it succeeds.
\<close>

definition detectSAMLerror :: "world \<Rightarrow> string \<Rightarrow> error option \<Rightarrow> world" where
  "detectSAMLerror w e probe =
     (if probe = None then w \<lparr> w_envPoolSize := (w_envPoolSize w)(e \<mapsto> 0) \<rparr> else w)"

text \<open>The callback of \<open>pool[querymode]\<close> in \<open>queryUserPool\<close>, lines 243-297.\<close>

definition queryUserPool_callback ::
  "world \<Rightarrow> string \<Rightarrow> string \<Rightarrow> string \<Rightarrow> error option \<Rightarrow> error option \<Rightarrow> 'r \<Rightarrow> world \<times> 'r called" where
  "queryUserPool_callback w userId e authMethod probe err result =
     (if \<not> isAuthFailed err \<and> \<not> isMissingUser err then (w, Callback err result)
      else if isMissingUser err then drain_and_clean w userId e err result
      else if authMethod = ''assertion'' \<and> truthy (assertion_of (the err))
      then drain_and_clean (detectSAMLerror w e probe) userId e probe result
      else drain_and_clean w userId e err result)"

section \<open>Sample inputs\<close>

text \<open>The options of the repository's tests: host, port, and a technical user.\<close>

definition poolOpts :: options where
  "poolOpts =
     \<lparr> host = Some ''example.host.com'', port = Some 30015, env = None, user = None,
       password = None, sessionCookie = None, assertion = None, maxPoolSize = None,
       minPoolSize = None, idleTimeoutMillis = None, refreshIdle = None,
       defaultSchema = None, resphPrefix = None \<rparr>"

definition optsUserPass :: options where
  "optsUserPass = poolOpts \<lparr> user := Some ''username'', password := Some ''secret'' \<rparr>"

definition optsAssertion :: options where
  "optsAssertion = poolOpts \<lparr> assertion := Some (AssertionValue ''<NameID>bob</NameID>'') \<rparr>"

text \<open>The pool of a construction that built one.\<close>

definition built :: "created \<times> effect list \<Rightarrow> hdbpool" where
  "built r = (case fst r of Built hp \<Rightarrow> hp)"

text \<open>A server that accepts the login, names the user BOB and issues a cookie.\<close>

definition accepted :: answers where
  "accepted = \<lparr> rnd = CHR ''x'', factory_result = Inr ''<NameID>bob</NameID>'',
      connect_result = Connected ''BOB'' (Some ''cookie1''), schema_result = None \<rparr>"

text \<open>
  The pool of the repository's test of two parallel first acquisitions, and a run of it:
  the creation for the second acquirer is refused while the first login is in flight, and
  made once that login is accepted.
\<close>

definition optsTwo :: options where
  "optsTwo = optsAssertion \<lparr> minPoolSize := Some 1, maxPoolSize := Some 2, refreshIdle := Some False \<rparr>"

definition twoAcquires :: "event list" where
  "twoAcquires = [Acquire 1, StartCreate CHR ''x'', Acquire 2, StartCreate CHR ''y'',
                  FinishCreate 0 accepted, StartCreate CHR ''y'', FinishCreate 0 accepted]"

text \<open>
  The same pool with a default schema that the server refuses, and a run in which the
  first login is accepted, \<open>SET SCHEMA\<close> fails, and two more creations start.
\<close>

definition optsSchema :: options where
  "optsSchema = optsTwo \<lparr> defaultSchema := Some ''NOSUCH'' \<rparr>"

definition schemaRefused :: answers where
  "schemaRefused = accepted \<lparr> schema_result := Some (ErrObject (Some 362) (Some ''invalid schema name'') None) \<rparr>"

definition schemaFails :: "event list" where
  "schemaFails = [Acquire 1, StartCreate CHR ''x'', FinishCreate 0 schemaRefused,
                  Acquire 2, Acquire 3, StartCreate CHR ''y'', StartCreate CHR ''z'']"

text \<open>
  A pool with \<open>minPoolSize\<close> and no \<open>maxPoolSize\<close>, as in the repository's test of the
  connection on pool creation, and a run in which its one handle is made, handed over,
  released and destroyed, and a second client asks.
\<close>

definition optsMinOnly :: options where
  "optsMinOnly = optsAssertion \<lparr> minPoolSize := Some 1 \<rparr>"

definition idleOut :: "event list" where
  "idleOut = [Acquire 1, StartCreate CHR ''x'', FinishCreate 0 accepted, ReleaseHandle 0,
              DestroyHandle 0, Acquire 2, StartCreate CHR ''y'']"

text \<open>
  A query in request-integrated mode on a pool with the header prefix of the tests, and
  the error of a statement that fails.
\<close>

definition httpExec :: qconf where
  "httpExec =
     \<lparr> q_me = built (createPool (\<lambda>a. None) (optsUserPass \<lparr> resphPrefix := Some ''test-'' \<rparr>)),
       q_mode = EXEC, q_req = True, q_resp = True, q_doPrep = False, q_streams = False \<rparr>"

definition sqlError :: error where
  "sqlError = ErrObject (Some 259) (Some ''invalid table name'') None"

text \<open>
  The entries of the client's table of type codes that the samples use; the row of the
  repository's RFC 4180 test, in three character columns, and a row with the same text in
  a column of type NCLOB, as the repository's test of a streamed large object selects it.
\<close>

definition hdbTypeCodes :: "nat \<Rightarrow> string option" where
  "hdbTypeCodes = map_of [(11, ''NVARCHAR''), (13, ''VARBINARY''), (14, ''DATE''), (26, ''NCLOB'')]"

definition rfcColumns :: "column list" where
  "rfcColumns =
     [\<lparr> columnDisplayName = ''COL1'', dataType = 11 \<rparr>,
      \<lparr> columnDisplayName = ''COL2'', dataType = 11 \<rparr>,
      \<lparr> columnDisplayName = ''COL3'', dataType = 11 \<rparr>]"

definition rfcRow :: dsvrow where
  "rfcRow =
     [(''COL1'', Some ''value,value''), (''COL2'', Some (''value'' @ [dquote] @ ''value'')),
      (''COL3'', Some (''value'' @ [LF] @ ''value''))]"

definition lobColumns :: "column list" where
  "lobColumns = [\<lparr> columnDisplayName = ''COL1'', dataType = 26 \<rparr>]"

definition lobRow :: dsvrow where
  "lobRow = [(''COL1'', Some ''value,value'')]"

text \<open>A row with a failing large object, one that reads well, and plain values.\<close>

definition sampleRow :: row where
  "sampleRow = [(''COL1'', Plain ''c1r1''), (''COL2'', LobValue (LobFails [''lor''])),
                (''COL3'', LobValue (LobEnds [''lorem '', ''ipsum''])), (''COL4'', Null)]"

text \<open>A plain request that names its environment in the header.\<close>

definition headerRequest :: "string \<Rightarrow> request" where
  "headerRequest e =
     \<lparr> r_session = None, r_headers = Some [''source-sys'' \<mapsto> e], r_query = Some Map.empty,
       r_body = None, SAMLAuthenticated = False \<rparr>"

text \<open>
  A user with a pool of two handles on HDB, opened with an assertion, whose session
  caches the HANA cookie of HDB; and the errors of the claim.
\<close>

definition bobSession :: session where
  "bobSession =
     \<lparr> ses_id = Some ''sid1'', ses_field = Map.empty, returnTo = None,
       passport = Some \<lparr> pu_nameID = Some ''bob'', pu_assertion = Some ''<NameID>bob</NameID>'',
                         pu_env = [''HDB'' \<mapsto> \<lparr> HANAUser = Some ''BOB'',
                                                  HANAsessionCookie = Some ''cookie1'' \<rparr>] \<rparr> \<rparr>"

definition bobWorld :: world where
  "bobWorld =
     \<lparr> w_userPools =
         [''bob'' \<mapsto> \<lparr> ue_pools = [''HDB'' \<mapsto> Some \<lparr> up_authMethod = ''assertion'' \<rparr>],
                        ue_sessions = [''sid1''], ue_lastAccess = 0 \<rparr>],
       w_session = Some bobSession, w_saves = 0,
       w_pool = \<lparr> gp_min = 1, gp_size = 2, gp_draining = False \<rparr>,
       w_envPoolSize = [''HDB'' \<mapsto> 3] \<rparr>"

definition missingPrincipal :: error where
  "missingPrincipal =
     ErrObject (Some 591)
       (Some ''internal error: Invalid principal id for principal $principalName$'')
       (Some ''<NameID>bob</NameID>'')"

definition authFailed :: error where
  "authFailed = ErrObject (Some 10) (Some ''authentication failed'') (Some ''<NameID>bob</NameID>'')"

definition probeFailed :: error where
  "probeFailed = ErrObject (Some 257) (Some ''sql syntax error'') None"

section \<open>Verified properties\<close>

lemmas construct_simps =
  built_def createPool_def HDBPool_def optsUserPass_def optsAssertion_def poolOpts_def
  truthy_def truthy_num_def or_else_def or_else_num_def Let_def accepted_def Pool_limits_def
  truthy_assertion_def assertionFactory_def

subsection \<open>Construction without host or port\<close>

text \<open>
  C9. For every configuration missing the host or missing the port, pool construction
  produces no usable pool (\<open>createPool\<close> returns \<open>undefined\<close>) and performs no network
  input or output: its only effect is one call of the logger.
\<close>

theorem createPool_missing_host_or_port:
  assumes "\<not> truthy (host opts) \<or> \<not> truthy_num (port opts)"
  shows "fst (createPool nameID opts) = NoPool
       \<and> filter is_io (snd (createPool nameID opts)) = []"
  using assms by (auto simp: createPool_def)

theorem createPool_missing_host_or_port_witness:
  "fst (createPool (\<lambda>a. None) (optsUserPass \<lparr> host := None \<rparr>)) = NoPool
   \<and> filter is_io (snd (createPool (\<lambda>a. None) (optsUserPass \<lparr> host := None \<rparr>))) = []
   \<and> fst (createPool (\<lambda>a. None) (optsUserPass \<lparr> port := None, minPoolSize := Some 1 \<rparr>)) = NoPool
   \<and> filter is_io (snd (createPool (\<lambda>a. None) (optsUserPass \<lparr> port := None, minPoolSize := Some 1 \<rparr>))) = []"
  using createPool_missing_host_or_port [of "optsUserPass \<lparr> host := None \<rparr>" "\<lambda>a. None"]
        createPool_missing_host_or_port
          [of "optsUserPass \<lparr> port := None, minPoolSize := Some 1 \<rparr>" "\<lambda>a. None"]
  by (simp add: construct_simps)

subsection \<open>The authentication strategy\<close>

lemma connects_conn: "connects (snd (snd (conn hp co w))) = [co]"
  by (simp add: conn_def setDefaultSchema_def Let_def split: connect_result.split prod.split)

text \<open>
  C6. For every pool configuration, handle creation selects exactly one authentication
  strategy by fixed precedence: password (user and password present) over session cookie
  (user and session cookie present) over assertion. Exactly one connect call is made, with
  the method of the selected strategy; when none of the three is available no connect is
  made and the callback receives \<open>'no authentication method'\<close>. With the session cookie and
  with the assertion, a password of one random byte (not empty) is supplied to the client.
\<close>

theorem create_auth_precedence:
  "(truthy (user (hp_options hp)) \<and> truthy (password (hp_options hp)) \<longrightarrow>
      map c_method (connects (snd (snd (create hp w)))) = [''password'']
      \<and> map c_password (connects (snd (snd (create hp w)))) = [the (password (hp_options hp))])
   \<and> (\<not> (truthy (user (hp_options hp)) \<and> truthy (password (hp_options hp)))
        \<and> truthy (user (hp_options hp)) \<and> truthy (sessionCookie (hp_options hp)) \<longrightarrow>
      map c_method (connects (snd (snd (create hp w)))) = [''sessionCookie'']
      \<and> map c_sessionCookie (connects (snd (snd (create hp w)))) = [sessionCookie (hp_options hp)]
      \<and> map c_password (connects (snd (snd (create hp w)))) = [[rnd w]])
   \<and> (\<not> (truthy (user (hp_options hp)) \<and> truthy (password (hp_options hp)))
        \<and> \<not> (truthy (user (hp_options hp)) \<and> truthy (sessionCookie (hp_options hp)))
        \<and> truthy_assertion (assertion (hp_options hp)) \<longrightarrow>
      (case assertionFactory (hp_options hp) w of
         Inr a \<Rightarrow>
           map c_method (connects (snd (snd (create hp w)))) = [''assertion'']
           \<and> map c_assertion (connects (snd (snd (create hp w)))) = [Some a]
           \<and> map c_password (connects (snd (snd (create hp w)))) = [[rnd w]]
       | Inl e \<Rightarrow>
           connects (snd (snd (create hp w))) = []
           \<and> fst (create hp w) = Some (ErrString (''SAML delegation error:'' @ e))))
   \<and> (\<not> (truthy (user (hp_options hp)) \<and> truthy (password (hp_options hp)))
        \<and> \<not> (truthy (user (hp_options hp)) \<and> truthy (sessionCookie (hp_options hp)))
        \<and> \<not> truthy_assertion (assertion (hp_options hp)) \<longrightarrow>
      fst (create hp w) = Some (ErrString ''no authentication method'')
      \<and> connects (snd (snd (create hp w))) = [])"
  by (auto simp: create_def chooseConnOpts_def finish_def connects_conn assertionConnOpts_def
                 Let_def
           split: sum.split)

theorem create_auth_precedence_witness:
  "(let hp = built (createPool (\<lambda>a. None) optsUserPass) in
      truthy (user (hp_options hp)) \<and> truthy (password (hp_options hp))
      \<and> map c_method (connects (snd (snd (create hp accepted)))) = [''password'']
      \<and> map c_password (connects (snd (snd (create hp accepted)))) = [''secret''])
   \<and> (let hp = built (createPool (\<lambda>a. None)
                (poolOpts \<lparr> user := Some ''BOB'', sessionCookie := Some ''cookie1'' \<rparr>)) in
      \<not> truthy (password (hp_options hp)) \<and> truthy (user (hp_options hp))
      \<and> truthy (sessionCookie (hp_options hp))
      \<and> map c_method (connects (snd (snd (create hp accepted)))) = [''sessionCookie'']
      \<and> map c_password (connects (snd (snd (create hp accepted)))) = [''x''])
   \<and> (let hp = built (createPool (\<lambda>a. Some ''bob'') optsAssertion) in
      \<not> truthy (user (hp_options hp)) \<and> truthy_assertion (assertion (hp_options hp))
      \<and> map c_method (connects (snd (snd (create hp accepted)))) = [''assertion'']
      \<and> map c_password (connects (snd (snd (create hp accepted)))) = [''x''])
   \<and> (let hp = built (createPool (\<lambda>a. None) (poolOpts \<lparr> user := Some ''username'' \<rparr>)) in
      \<not> truthy (password (hp_options hp)) \<and> \<not> truthy (sessionCookie (hp_options hp))
      \<and> \<not> truthy_assertion (assertion (hp_options hp))
      \<and> fst (create hp accepted) = Some (ErrString ''no authentication method'')
      \<and> connects (snd (snd (create hp accepted))) = [])"
  using create_auth_precedence [of "built (createPool (\<lambda>a. None) optsUserPass)" accepted]
        create_auth_precedence [of "built (createPool (\<lambda>a. None)
                (poolOpts \<lparr> user := Some ''BOB'', sessionCookie := Some ''cookie1'' \<rparr>))" accepted]
        create_auth_precedence [of "built (createPool (\<lambda>a. Some ''bob'') optsAssertion)" accepted]
        create_auth_precedence [of "built (createPool (\<lambda>a. None)
                (poolOpts \<lparr> user := Some ''username'' \<rparr>))" accepted]
  by (simp add: construct_simps)

subsection \<open>The first connection of a pool\<close>

lemma conn_pool:
  "fst (snd (conn hp co w)) =
     (case connect_result w of ConnectError code msg \<Rightarrow> hp | Connected u c \<Rightarrow> login hp co u c)"
  by (simp add: conn_def login_def Let_def split: connect_result.split prod.split)

lemma conn_err:
  "fst (conn hp co w) = None \<Longrightarrow> \<exists>u c. connect_result w = Connected u c"
  by (simp add: conn_def Let_def split: connect_result.splits prod.splits)

lemma finish_pool:
  "fst (snd (finish hp chosen w)) =
     (case chosen of
        Some co \<Rightarrow>
          (case connect_result w of ConnectError code msg \<Rightarrow> hp | Connected u c \<Rightarrow> login hp co u c)
      | None \<Rightarrow>
          (case assertionFactory (hp_options hp) w of
             Inl e \<Rightarrow> hp
           | Inr a \<Rightarrow>
               (case connect_result w of
                  ConnectError code msg \<Rightarrow> hp
                | Connected u c \<Rightarrow> login hp (assertionConnOpts hp w a) u c)))"
  by (simp add: finish_def conn_pool split: option.split sum.split)

lemma finish_connects:
  "connects (snd (snd (finish hp chosen w))) =
     (case chosen of
        Some co \<Rightarrow> [co]
      | None \<Rightarrow>
          (case assertionFactory (hp_options hp) w of
             Inl e \<Rightarrow> []
           | Inr a \<Rightarrow> [assertionConnOpts hp w a]))"
  by (simp add: finish_def connects_conn split: option.split sum.split)

lemma finish_err:
  "fst (finish hp chosen w) = None \<Longrightarrow> \<exists>u c. connect_result w = Connected u c"
  by (auto simp: finish_def split: option.splits sum.splits dest: conn_err)

lemma finish_connect_error:
  "connect_result w = ConnectError code msg \<Longrightarrow> fst (finish hp chosen w) \<noteq> None"
  by (simp add: finish_def conn_def split: option.split sum.split)

lemma finish_factory_error:
  "assertionFactory (hp_options hp) w = Inl e \<Longrightarrow> fst (finish hp None w) \<noteq> None"
  by (simp add: finish_def)

text \<open>A creation after which no login is on record has failed and left the pool as it was.\<close>

lemma finish_no_login:
  assumes "accepted_logins (connect_result w) (snd (snd (finish hp chosen w))) = []"
  shows "fst (finish hp chosen w) \<noteq> None" and "fst (snd (finish hp chosen w)) = hp"
proof -
  show "fst (finish hp chosen w) \<noteq> None"
  proof (cases "connect_result w")
    case (ConnectError code msg)
    then show ?thesis by (rule finish_connect_error)
  next
    case (Connected u c)
    with assms have "connects (snd (snd (finish hp chosen w))) = []"
      by (simp add: accepted_logins_def)
    then obtain e where "chosen = None" "assertionFactory (hp_options hp) w = Inl e"
      by (auto simp: finish_connects split: option.splits sum.splits)
    then show ?thesis using finish_factory_error [of hp w e] by simp
  qed
  show "fst (snd (finish hp chosen w)) = hp"
    using assms
    by (auto simp: accepted_logins_def finish_connects finish_pool
             split: connect_result.splits option.splits sum.splits)
qed

text \<open>The handle of a creation that succeeded is on record as a login.\<close>

lemma finish_handle_login:
  assumes "fst (finish hp chosen w) = None"
  shows "set (connects (snd (snd (finish hp chosen w))))
           \<subseteq> set (map fst (accepted_logins (connect_result w) (snd (snd (finish hp chosen w)))))"
  using finish_err [OF assms] by (force simp: accepted_logins_def)

lemma serve_fields:
  "s_pool (serve s r) = s_pool s" "s_count (serve s r) = s_count s"
  "s_pending (serve s r) = s_pending s" "s_logins (serve s r) = s_logins s"
  by (simp_all add: serve_def split: list.split sum.split)

lemma got_handles_append: "got_handles (xs @ ys) = got_handles xs @ got_handles ys"
  by (induction xs rule: got_handles.induct) simp_all

lemma handles_serve_error: "handles (serve s (Inl e)) = handles s"
  by (simp add: serve_def handles_def got_handles_append split: list.split)

lemma handles_serve_handle: "set (handles (serve s (Inr h))) = insert h (set (handles s))"
  by (auto simp: serve_def handles_def got_handles_append split: list.split)

text \<open>What one event does to the pool, the count, the creations in flight and the logins.\<close>

lemma step_FinishCreate:
  assumes "i < length (s_pending s)"
  shows "s_pool (step s (FinishCreate i w)) = fst (snd (finish (s_pool s) (s_pending s ! i) w))"
    and "s_pending (step s (FinishCreate i w)) = take i (s_pending s) @ drop (Suc i) (s_pending s)"
    and "s_logins (step s (FinishCreate i w))
           = s_logins s @ accepted_logins (connect_result w)
                            (snd (snd (finish (s_pool s) (s_pending s ! i) w)))"
    and "s_count (step s (FinishCreate i w))
           = (if fst (finish (s_pool s) (s_pending s ! i) w) = None
              then s_count s else s_count s - 1)"
    and "set (handles (step s (FinishCreate i w)))
           = (if fst (finish (s_pool s) (s_pending s ! i) w) = None
              then set (connects (snd (snd (finish (s_pool s) (s_pending s ! i) w))))
                   \<union> set (handles s)
              else set (handles s))"
proof -
  obtain err hp' effs where f: "finish (s_pool s) (s_pending s ! i) w = (err, hp', effs)"
    by (cases "finish (s_pool s) (s_pending s ! i) w")
  have one: "err = None \<Longrightarrow> \<exists>co. connects effs = [co]"
    using finish_connects [of "s_pool s" "s_pending s ! i" w] finish_factory_error [of "s_pool s" w] f
    by (auto split: option.splits sum.splits)
  show "s_pool (step s (FinishCreate i w)) = fst (snd (finish (s_pool s) (s_pending s ! i) w))"
    using assms f by (simp add: Let_def serve_fields split: option.split list.split)
  show "s_pending (step s (FinishCreate i w)) = take i (s_pending s) @ drop (Suc i) (s_pending s)"
    using assms f by (simp add: Let_def serve_fields split: option.split list.split)
  show "s_logins (step s (FinishCreate i w))
           = s_logins s @ accepted_logins (connect_result w)
                            (snd (snd (finish (s_pool s) (s_pending s ! i) w)))"
    using assms f by (simp add: Let_def serve_fields split: option.split list.split)
  show "s_count (step s (FinishCreate i w))
           = (if fst (finish (s_pool s) (s_pending s ! i) w) = None
              then s_count s else s_count s - 1)"
    using assms f by (simp add: Let_def serve_fields split: option.split list.split)
  show "set (handles (step s (FinishCreate i w)))
           = (if fst (finish (s_pool s) (s_pending s ! i) w) = None
              then set (connects (snd (snd (finish (s_pool s) (s_pending s ! i) w))))
                   \<union> set (handles s)
              else set (handles s))"
  proof (cases err)
    case None
    with one obtain co where "connects effs = [co]" by auto
    then show ?thesis
      using assms f None by (simp add: Let_def handles_serve_handle) (simp add: handles_def)
  next
    case (Some e)
    then show ?thesis
      using assms f by (simp add: Let_def handles_serve_error) (simp add: handles_def)
  qed
qed

lemma step_FinishCreate_late:
  "\<not> i < length (s_pending s) \<Longrightarrow> step s (FinishCreate i w) = s"
  by simp

lemma step_StartCreate:
  "s_pool (step s (StartCreate r)) = s_pool s"
  "s_logins (step s (StartCreate r)) = s_logins s"
  "handles (step s (StartCreate r)) = handles s"
  "s_count (step s (StartCreate r)) = s_count s + length (s_pending (step s (StartCreate r))) - length (s_pending s)"
  "s_pending (step s (StartCreate r)) =
     (if may_create s
      then (case chooseConnOpts (s_pool s) r of Inl e \<Rightarrow> s_pending s | Inr ch \<Rightarrow> s_pending s @ [ch])
      else s_pending s)"
  by (simp_all add: serve_fields handles_serve_error split: sum.split)
     (simp_all add: handles_def)

lemma step_Acquire:
  "s_pool (step s (Acquire a)) = s_pool s" "s_logins (step s (Acquire a)) = s_logins s"
  "s_pending (step s (Acquire a)) = s_pending s" "s_count (step s (Acquire a)) = s_count s"
  "handles (step s (Acquire a)) = handles s"
  by (simp_all add: handles_def)

lemma step_Hand:
  "s_pool (step s (Hand i)) = s_pool s" "s_logins (step s (Hand i)) = s_logins s"
  "s_pending (step s (Hand i)) = s_pending s" "s_count (step s (Hand i)) = s_count s"
  "set (handles (step s (Hand i))) \<subseteq> set (handles s)"
proof -
  show "set (handles (step s (Hand i))) \<subseteq> set (handles s)"
  proof (cases "i < length (s_available s) \<and> s_waiting s \<noteq> []")
    case True
    then have "s_available s ! i \<in> set (s_available s)" by simp
    then show ?thesis
      using True
      by (auto simp: handles_serve_handle) (auto simp: handles_def dest: in_set_takeD in_set_dropD)
  next
    case False
    then show ?thesis by auto
  qed
qed (simp_all add: serve_fields)

lemma step_ReleaseHandle:
  "s_pool (step s (ReleaseHandle i)) = s_pool s" "s_logins (step s (ReleaseHandle i)) = s_logins s"
  "s_pending (step s (ReleaseHandle i)) = s_pending s"
  "s_count (step s (ReleaseHandle i)) = s_count s"
  "set (handles (step s (ReleaseHandle i))) \<subseteq> set (handles s)"
proof -
  show "set (handles (step s (ReleaseHandle i))) \<subseteq> set (handles s)"
  proof (cases "i < length (s_inUse s)")
    case True
    then have "s_inUse s ! i \<in> set (s_inUse s)" by simp
    then show ?thesis
      using True by (auto simp: handles_def dest: in_set_takeD in_set_dropD)
  next
    case False
    then show ?thesis by auto
  qed
qed simp_all

lemma step_DestroyHandle:
  "s_pool (step s (DestroyHandle i)) = s_pool s" "s_logins (step s (DestroyHandle i)) = s_logins s"
  "s_pending (step s (DestroyHandle i)) = s_pending s"
  "set (handles (step s (DestroyHandle i))) \<subseteq> set (handles s)"
  "handles s = [] \<Longrightarrow> s_count (step s (DestroyHandle i)) = s_count s"
  by (auto simp: handles_def dest: in_set_takeD in_set_dropD)

lemma subset_all: "set ys \<subseteq> set xs \<Longrightarrow> list_all P xs \<Longrightarrow> list_all P ys"
  by (auto simp: list_all_iff)

lemma subset_nil: "set ys \<subseteq> set xs \<Longrightarrow> xs = [] \<Longrightarrow> ys = []"
  by auto

lemma length_remove: "i < length xs \<Longrightarrow> length (take i xs @ drop (Suc i) xs) = length xs - 1"
  by auto

lemma list_all_take: "list_all P xs \<Longrightarrow> list_all P (take i xs)"
  by (auto simp: list_all_iff dest: in_set_takeD)

lemma list_all_drop: "list_all P xs \<Longrightarrow> list_all P (drop i xs)"
  by (auto simp: list_all_iff dest: in_set_dropD)

text \<open>A creation with a login on record leaves the pool as \<open>login\<close> says.\<close>

lemma finish_login:
  assumes "accepted_logins (connect_result w) (snd (snd (finish hp chosen w))) \<noteq> []"
  shows "\<exists>co u c. fst (snd (finish hp chosen w)) = login hp co u c"
  using assms
  by (auto simp: accepted_logins_def finish_connects finish_pool
           split: connect_result.splits option.splits sum.splits)

lemma login_limits:
  "f_max (login hp co u c) = maxPoolSize (hp_options hp)"
  "f_min (login hp co u c) = f_min hp"
  "maxPoolSize (hp_options (login hp co u c)) = maxPoolSize (hp_options hp)"
  by (simp_all add: login_def)

lemma max_inv_step:
  assumes inv: "max_inv opts s"
  shows "max_inv opts (step s e)"
proof (cases e)
  case (Acquire a)
  show ?thesis
    using inv unfolding Acquire max_inv_def by (auto simp del: step.simps simp add: step_Acquire)
next
  case (StartCreate r)
  show ?thesis
  proof (cases "s_logins s = []")
    case True
    have "s_pending (step s (StartCreate r)) = s_pending s
          \<or> (s_count s = 0 \<and> (\<exists>ch. s_pending (step s (StartCreate r)) = s_pending s @ [ch]))"
      using inv True
      by (auto simp del: step.simps simp add: max_inv_def may_create_def step_StartCreate(5)
               split: sum.splits)
    then show ?thesis
      using inv True unfolding StartCreate max_inv_def
      by (auto simp del: step.simps simp add: step_StartCreate(1-4))
  next
    case False
    then show ?thesis
      using inv unfolding StartCreate max_inv_def
      by (auto simp del: step.simps simp add: step_StartCreate(1-3))
  qed
next
  case (FinishCreate i w)
  show ?thesis
  proof (cases "i < length (s_pending s)")
    case False
    then show ?thesis using inv FinishCreate by simp
  next
    case True
    let ?f = "finish (s_pool s) (s_pending s ! i) w"
    let ?al = "accepted_logins (connect_result w) (snd (snd ?f))"
    let ?s' = "step s (FinishCreate i w)"
    note F = step_FinishCreate [OF True, of w]
    show ?thesis
    proof (cases "?al = []")
      case True
      note no = finish_no_login [OF True]
      have h: "set (handles ?s') = set (handles s)"
        using F(5) no(1) by simp
      then have h0: "handles s = [] \<Longrightarrow> handles ?s' = []"
        by simp
      have c: "s_count s = length (s_pending s) \<Longrightarrow> s_count ?s' = length (s_pending ?s')"
        using F(2,4) no(1) \<open>i < length (s_pending s)\<close> by (simp add: length_remove)
      have le: "length (s_pending ?s') \<le> length (s_pending s)"
        using F(2) \<open>i < length (s_pending s)\<close> by (simp add: length_remove)
      have "list_all (\<lambda>h. h \<in> set (map fst (s_logins s))) (handles ?s')"
        using inv h by (simp add: max_inv_def list_all_iff)
      then show ?thesis
        using inv h0 c le F(1,3,4) no(2) True unfolding FinishCreate max_inv_def
        by (auto simp del: step.simps)
    next
      case False
      from finish_login [OF False] obtain co u c where
        l: "fst (snd ?f) = login (s_pool s) co u c" by blast
      have lg: "s_logins ?s' \<noteq> []"
        using F(3) False by simp
      have "set (handles ?s') \<subseteq> set (map fst ?al) \<union> set (handles s)"
        using F(5) finish_handle_login [of "s_pool s" "s_pending s ! i" w] by auto
      then have "list_all (\<lambda>h. h \<in> set (map fst (s_logins ?s'))) (handles ?s')"
        using inv F(3) by (auto simp: max_inv_def list_all_iff simp del: step.simps)
      then show ?thesis
        using inv lg F(1) l unfolding FinishCreate max_inv_def
        by (auto simp del: step.simps simp add: login_limits)
    qed
  qed
next
  case (Hand i)
  note H = step_Hand [of s i]
  have "list_all (\<lambda>h. h \<in> set (map fst (s_logins s))) (handles (step s (Hand i)))"
    using inv subset_all [OF H(5)] by (simp add: max_inv_def del: step.simps)
  moreover have "handles s = [] \<Longrightarrow> handles (step s (Hand i)) = []"
    using H(5) by (rule subset_nil)
  ultimately show ?thesis
    using inv H(1-4) unfolding Hand max_inv_def
    by (auto simp del: step.simps)
next
  case (ReleaseHandle i)
  note H = step_ReleaseHandle [of s i]
  have "list_all (\<lambda>h. h \<in> set (map fst (s_logins s))) (handles (step s (ReleaseHandle i)))"
    using inv subset_all [OF H(5)] by (simp add: max_inv_def del: step.simps)
  moreover have "handles s = [] \<Longrightarrow> handles (step s (ReleaseHandle i)) = []"
    using H(5) by (rule subset_nil)
  ultimately show ?thesis
    using inv H(1-4) unfolding ReleaseHandle max_inv_def
    by (auto simp del: step.simps)
next
  case (DestroyHandle i)
  note H = step_DestroyHandle [of s i]
  have "list_all (\<lambda>h. h \<in> set (map fst (s_logins s))) (handles (step s (DestroyHandle i)))"
    using inv subset_all [OF H(4)] by (simp add: max_inv_def del: step.simps)
  moreover have "handles s = [] \<Longrightarrow> handles (step s (DestroyHandle i)) = []"
    using H(4) by (rule subset_nil)
  ultimately show ?thesis
    using inv H(1-3,5) unfolding DestroyHandle max_inv_def
    by (auto simp del: step.simps)
qed

lemma max_inv_run: "max_inv opts s \<Longrightarrow> max_inv opts (run s evs)"
  unfolding run_def by (induction evs arbitrary: s) (auto intro: max_inv_step)

lemma max_inv_constructed:
  "minPoolSize opts = Some n \<Longrightarrow> 0 < n \<Longrightarrow> fst (HDBPool nameID opts) = Built hp \<Longrightarrow>
     max_inv opts (constructed hp)"
  by (auto simp: HDBPool_def max_inv_def constructed_def handles_def Pool_limits_def Let_def
           split: if_splits)

lemma phase_inv_start:
  assumes inv: "phase_inv s"
  shows "phase_inv (step s (StartCreate r))"
proof -
  have "s_pending (step s (StartCreate r)) = s_pending s
        \<or> (\<exists>ch. chooseConnOpts (s_pool s) r = Inr ch
                 \<and> s_pending (step s (StartCreate r)) = s_pending s @ [ch])"
    by (auto simp del: step.simps simp add: step_StartCreate(5) split: sum.splits)
  then show ?thesis
  proof
    assume "s_pending (step s (StartCreate r)) = s_pending s"
    then show ?thesis
      using inv unfolding phase_inv_def
      by (auto simp del: step.simps simp add: step_StartCreate(1,2) assertion_logins_def
               split: if_splits)
  next
    assume "\<exists>ch. chooseConnOpts (s_pool s) r = Inr ch
                 \<and> s_pending (step s (StartCreate r)) = s_pending s @ [ch]"
    then obtain ch where ch: "chooseConnOpts (s_pool s) r = Inr ch"
      and p: "s_pending (step s (StartCreate r)) = s_pending s @ [ch]" by blast
    have "if s_logins s = [] then ch = None
          else cookie_pending (sessionCookie (hp_options (s_pool s))) ch"
      using inv ch
      by (auto simp: phase_inv_def chooseConnOpts_def Let_def cookie_pending_def split: if_splits)
    then show ?thesis
      using inv p unfolding phase_inv_def
      by (auto simp del: step.simps simp add: step_StartCreate(1,2) assertion_logins_def
               split: if_splits)
  qed
qed

lemma phase_inv_finish_before:
  assumes inv: "phase_inv s" and mx: "max_inv opts s" and none: "s_logins s = []"
    and i: "i < length (s_pending s)" and sv: "served s (FinishCreate i w)"
  shows "phase_inv (step s (FinishCreate i w))"
proof -
  from mx none i have "length (s_pending s) = 1" and i0: "i = 0"
    by (auto simp: max_inv_def)
  with inv none have p: "s_pending s = [None]"
    by (cases "s_pending s") (auto simp: phase_inv_def)
  have i': "0 < length (s_pending s)" using p by simp
  note F = step_FinishCreate [OF i', of w]
  have "phase_inv (step s (FinishCreate 0 w))"
    using inv none sv unfolding phase_inv_def i0
    by (auto simp del: step.simps
             simp add: F(1,2,3) p finish_pool finish_connects accepted_logins_def login_def
                   assertion_logins_def assertionConnOpts_def same_session_def truthy_def
             split: sum.splits connect_result.splits if_splits)
  then show ?thesis by (simp only: i0)
qed

lemma phase_inv_finish_after:
  assumes inv: "phase_inv s" and some: "s_logins s \<noteq> []" and i: "i < length (s_pending s)"
    and sv: "served s (FinishCreate i w)"
  shows "phase_inv (step s (FinishCreate i w))"
proof -
  from inv some i have "cookie_pending (sessionCookie (hp_options (s_pool s))) (s_pending s ! i)"
    by (auto simp: phase_inv_def list_all_length)
  then obtain co where co: "s_pending s ! i = Some co" "c_method co = ''sessionCookie''"
      "c_sessionCookie co = sessionCookie (hp_options (s_pool s))"
    by (auto simp: cookie_pending_def split: option.splits)
  have rest: "list_all (cookie_pending (sessionCookie (hp_options (s_pool s))))
                (take i (s_pending s) @ drop (Suc i) (s_pending s))"
    using inv some by (auto simp: phase_inv_def list_all_take list_all_drop)
  note F = step_FinishCreate [OF i, of w]
  show ?thesis
    using inv some sv rest unfolding phase_inv_def
    by (auto simp del: step.simps
             simp add: F(1,2,3) co finish_pool finish_connects accepted_logins_def login_def
                   assertion_logins_def same_session_def truthy_def
             split: connect_result.splits if_splits)
qed

lemma phase_inv_step:
  assumes "phase_inv s" and "max_inv opts s" and "served s e"
  shows "phase_inv (step s e)"
proof (cases e)
  case (Acquire a)
  show ?thesis
    using assms(1) unfolding Acquire phase_inv_def
    by (auto simp del: step.simps simp add: step_Acquire assertion_logins_def split: if_splits)
next
  case (StartCreate r)
  show ?thesis using assms(1) unfolding StartCreate by (rule phase_inv_start)
next
  case (FinishCreate i w)
  show ?thesis
  proof (cases "i < length (s_pending s)")
    case False
    then show ?thesis using assms(1) FinishCreate by simp
  next
    case True
    show ?thesis
    proof (cases "s_logins s = []")
      case True
      show ?thesis
        using assms \<open>i < length (s_pending s)\<close> True unfolding FinishCreate
        by (intro phase_inv_finish_before [of s opts])
    next
      case False
      show ?thesis
        using assms \<open>i < length (s_pending s)\<close> False unfolding FinishCreate
        by (intro phase_inv_finish_after)
    qed
  qed
next
  case (Hand i)
  show ?thesis
    using assms(1) unfolding Hand phase_inv_def
    by (auto simp del: step.simps simp add: step_Hand assertion_logins_def split: if_splits)
next
  case (ReleaseHandle i)
  show ?thesis
    using assms(1) unfolding ReleaseHandle phase_inv_def
    by (auto simp del: step.simps simp add: step_ReleaseHandle assertion_logins_def split: if_splits)
next
  case (DestroyHandle i)
  show ?thesis
    using assms(1) unfolding DestroyHandle phase_inv_def
    by (auto simp del: step.simps simp add: step_DestroyHandle assertion_logins_def split: if_splits)
qed

lemma phase_inv_run:
  "phase_inv s \<Longrightarrow> max_inv opts s \<Longrightarrow> served_all s evs \<Longrightarrow> phase_inv (run s evs)"
  unfolding run_def
  by (induction evs arbitrary: s) (auto intro: phase_inv_step max_inv_step simp del: step.simps)

lemma phase_inv_constructed:
  "\<not> truthy (password opts) \<Longrightarrow> \<not> truthy (sessionCookie opts)
   \<Longrightarrow> truthy_assertion (assertion opts) \<Longrightarrow> fst (HDBPool nameID opts) = Built hp
   \<Longrightarrow> phase_inv (constructed hp)"
  by (auto simp: HDBPool_def phase_inv_def constructed_def Let_def split: if_splits)

text \<open>
  C2, as amended. For every pool constructed with \<open>minPoolSize > 0\<close> and a \<open>maxPoolSize\<close>
  that is configured (and not 0), the factory's \<open>max\<close> is 1 from construction until the
  first login is accepted, through every creation that fails before that, and from that
  first successful connection on it is the configured \<open>maxPoolSize\<close> (line 197 runs as soon
  as \<open>connect\<close> succeeds, before the default schema is set). Until then at most one
  creation is in flight and the pool has no handle; every handle the pool ever has was
  opened by a login on record. Consequently, on a pool that starts with an assertion and
  neither password nor session cookie, served by a server that names a user on every login
  and issues a session cookie on an assertion login: at most one login with the assertion
  is ever accepted, the cookie it issued is the one the pool keeps, and every other login
  presents that cookie, whatever the acquisitions and the order of the pool's events.
\<close>

theorem first_connection_restores_max:
  assumes "minPoolSize opts = Some n" and "0 < n" and "maxPoolSize opts = Some m" and "0 < m"
    and "fst (HDBPool nameID opts) = Built hp"
  shows "f_max hp = Some 1
       \<and> f_max (s_pool (run (constructed hp) evs)) =
           (if s_logins (run (constructed hp) evs) = [] then Some 1 else Some m)
       \<and> (s_logins (run (constructed hp) evs) = [] \<longrightarrow>
            length (s_pending (run (constructed hp) evs)) \<le> 1
            \<and> handles (run (constructed hp) evs) = [])
       \<and> list_all (\<lambda>h. h \<in> set (map fst (s_logins (run (constructed hp) evs))))
            (handles (run (constructed hp) evs))
       \<and> (\<not> truthy (password opts) \<and> \<not> truthy (sessionCookie opts)
            \<and> truthy_assertion (assertion opts) \<and> served_all (constructed hp) evs \<longrightarrow>
          length (assertion_logins (run (constructed hp) evs)) \<le> 1
          \<and> map snd (assertion_logins (run (constructed hp) evs)) =
               (if s_logins (run (constructed hp) evs) = [] then []
                else [sessionCookie (hp_options (s_pool (run (constructed hp) evs)))])
          \<and> list_all (same_session (sessionCookie (hp_options (s_pool (run (constructed hp) evs)))))
               (map fst (s_logins (run (constructed hp) evs))))"
proof -
  let ?S = "run (constructed hp) evs"
  have m0: "max_inv opts (constructed hp)"
    using assms(1,2,5) by (rule max_inv_constructed)
  then have a: "f_max hp = Some 1"
    by (simp add: max_inv_def constructed_def)
  have m: "max_inv opts ?S"
    using m0 by (rule max_inv_run)
  then have b: "f_max (s_pool ?S) = (if s_logins ?S = [] then Some 1 else Some m)"
    using assms(3) by (simp add: max_inv_def)
  have c: "s_logins ?S = [] \<longrightarrow> length (s_pending ?S) \<le> 1 \<and> handles ?S = []"
    using m by (auto simp: max_inv_def)
  have d: "list_all (\<lambda>h. h \<in> set (map fst (s_logins ?S))) (handles ?S)"
    using m by (simp add: max_inv_def)
  have e: "length (assertion_logins ?S) \<le> 1
          \<and> map snd (assertion_logins ?S) =
               (if s_logins ?S = [] then [] else [sessionCookie (hp_options (s_pool ?S))])
          \<and> list_all (same_session (sessionCookie (hp_options (s_pool ?S)))) (map fst (s_logins ?S))"
    if "\<not> truthy (password opts)" "\<not> truthy (sessionCookie opts)"
       "truthy_assertion (assertion opts)" "served_all (constructed hp) evs"
  proof -
    have "phase_inv (constructed hp)"
      using that(1-3) assms(5) by (rule phase_inv_constructed)
    then have p: "phase_inv ?S"
      using m0 that(4) by (rule phase_inv_run)
    show ?thesis
    proof (cases "s_logins ?S = []")
      case True
      then show ?thesis by (simp add: assertion_logins_def)
    next
      case False
      with p have q: "map snd (assertion_logins ?S) = [sessionCookie (hp_options (s_pool ?S))]"
        and r: "list_all (same_session (sessionCookie (hp_options (s_pool ?S))))
                  (map fst (s_logins ?S))"
        by (simp_all add: phase_inv_def)
      from q have "length (map snd (assertion_logins ?S)) = 1" by simp
      then have "length (assertion_logins ?S) \<le> 1" by simp
      then show ?thesis using q r False by simp
    qed
  qed
  from a b c d e show ?thesis by blast
qed

lemmas run_simps =
  run_def constructed_def may_create_def chooseConnOpts_def finish_def conn_def
  setDefaultSchema_def accepted_logins_def assertion_logins_def serve_def handles_def
  assertionConnOpts_def same_session_def optsTwo_def twoAcquires_def optsSchema_def
  schemaRefused_def schemaFails_def optsMinOnly_def idleOut_def

theorem first_connection_restores_max_witness:
  "minPoolSize optsTwo = Some 1 \<and> maxPoolSize optsTwo = Some 2
   \<and> fst (HDBPool (\<lambda>a. Some ''bob'') optsTwo) = Built (built (HDBPool (\<lambda>a. Some ''bob'') optsTwo))
   \<and> \<not> truthy (password optsTwo) \<and> \<not> truthy (sessionCookie optsTwo)
   \<and> truthy_assertion (assertion optsTwo)
   \<and> served_all (constructed (built (HDBPool (\<lambda>a. Some ''bob'') optsTwo))) twoAcquires
   \<and> f_max (built (HDBPool (\<lambda>a. Some ''bob'') optsTwo)) = Some 1
   \<and> f_max (s_pool (run (constructed (built (HDBPool (\<lambda>a. Some ''bob'') optsTwo))) twoAcquires))
       = Some 2
   \<and> length (assertion_logins
        (run (constructed (built (HDBPool (\<lambda>a. Some ''bob'') optsTwo))) twoAcquires)) \<le> 1
   \<and> map (\<lambda>l. (c_method (fst l), c_sessionCookie (fst l), snd l))
        (s_logins (run (constructed (built (HDBPool (\<lambda>a. Some ''bob'') optsTwo))) twoAcquires))
       = [(''assertion'', None, Some ''cookie1''),
          (''sessionCookie'', Some ''cookie1'', Some ''cookie1'')]
   \<and> map fst (s_got (run (constructed (built (HDBPool (\<lambda>a. Some ''bob'') optsTwo))) twoAcquires))
       = [1, 2]
   \<and> map c_method
        (got_handles
          (s_got (run (constructed (built (HDBPool (\<lambda>a. Some ''bob'') optsTwo))) twoAcquires)))
       = [''assertion'', ''sessionCookie'']
   \<and> served_all (constructed (built (HDBPool (\<lambda>a. Some ''bob'') optsTwo))) (take 4 twoAcquires)
   \<and> s_logins (run (constructed (built (HDBPool (\<lambda>a. Some ''bob'') optsTwo)))
        (take 4 twoAcquires)) = []
   \<and> length (s_pending (run (constructed (built (HDBPool (\<lambda>a. Some ''bob'') optsTwo)))
        (take 4 twoAcquires))) \<le> 1
   \<and> s_waiting (run (constructed (built (HDBPool (\<lambda>a. Some ''bob'') optsTwo)))
        (take 4 twoAcquires)) = [1, 2]
   \<and> f_max (s_pool (run (constructed (built (HDBPool (\<lambda>a. Some ''bob'') optsTwo)))
        (take 4 twoAcquires))) = Some 1"
  using first_connection_restores_max
          [of optsTwo 1 2 "\<lambda>a. Some ''bob''" "built (HDBPool (\<lambda>a. Some ''bob'') optsTwo)"
              twoAcquires]
        first_connection_restores_max
          [of optsTwo 1 2 "\<lambda>a. Some ''bob''" "built (HDBPool (\<lambda>a. Some ''bob'') optsTwo)"
              "take 4 twoAcquires"]
  by (simp add: construct_simps run_simps)

text \<open>
  C2 as stated fails where the pool does as its comment says (line 196, \<open>after the first
  successful connection\<close>): the first login is accepted and \<open>SET SCHEMA\<close> fails, so the
  creation fails, the acquirer receives the error and the pool has no handle and none in
  the making; yet \<open>max\<close> is the configured 2 already, and two creations run side by side.
\<close>

theorem max_restored_before_first_handle:
  "handles (run (constructed (built (HDBPool (\<lambda>a. Some ''bob'') optsSchema))) (take 3 schemaFails))
     = []
   \<and> s_got (run (constructed (built (HDBPool (\<lambda>a. Some ''bob'') optsSchema))) (take 3 schemaFails))
     = [(1, Inl (ErrObject (Some 362) (Some ''invalid schema name'') None))]
   \<and> s_count (run (constructed (built (HDBPool (\<lambda>a. Some ''bob'') optsSchema)))
        (take 3 schemaFails)) = 0
   \<and> f_max (s_pool (run (constructed (built (HDBPool (\<lambda>a. Some ''bob'') optsSchema)))
        (take 3 schemaFails))) = Some 2
   \<and> handles (run (constructed (built (HDBPool (\<lambda>a. Some ''bob'') optsSchema))) schemaFails) = []
   \<and> length (s_pending (run (constructed (built (HDBPool (\<lambda>a. Some ''bob'') optsSchema)))
        schemaFails)) = 2"
  by (simp add: construct_simps run_simps)

text \<open>
  What the amended claim leaves out: a pool with \<open>minPoolSize > 0\<close> and no \<open>maxPoolSize\<close>.
  Line 95 takes 1 for the missing value, line 198 assigns the missing value itself: after
  the first login the factory's \<open>max\<close> is \<open>undefined\<close>, no count is below it, and once the
  handle is gone no creation is ever made for a waiting client.
\<close>

lemma missing_maxPoolSize_is_assigned:
  "f_max (built (HDBPool (\<lambda>a. Some ''bob'') optsMinOnly)) = Some 1
   \<and> f_max (s_pool (run (constructed (built (HDBPool (\<lambda>a. Some ''bob'') optsMinOnly)))
        (take 3 idleOut))) = None
   \<and> s_waiting (run (constructed (built (HDBPool (\<lambda>a. Some ''bob'') optsMinOnly))) idleOut) = [2]
   \<and> s_count (run (constructed (built (HDBPool (\<lambda>a. Some ''bob'') optsMinOnly))) idleOut) = 0
   \<and> s_pending (run (constructed (built (HDBPool (\<lambda>a. Some ''bob'') optsMinOnly))) idleOut) = []
   \<and> \<not> may_create (run (constructed (built (HDBPool (\<lambda>a. Some ''bob'') optsMinOnly))) idleOut)"
  by (simp add: construct_simps run_simps)

subsection \<open>The query dispatcher\<close>

lemmas dispatch_simps =
  dispatch_def query_def httpExec_def sqlError_def execQuery_def executeQuery_def exCb_def
  setupRespHeader_def this_start_def this_execStart_def js_minus_def

text \<open>
  Whatever the configuration and the times: a request that closes between the acquisition
  and the statement's failure gets the handle released twice and the error delivered.
\<close>

lemma close_then_error_is_delivered:
  assumes "q_req c" and "q_mode c = EXEC" and "\<not> q_doPrep c"
  shows "q_trace (dispatch c t0
           [Acquired None t1, Close, ExecAnswer \<lparr> x_err = Some e, x_rows = r, x_dummyRows = dr \<rparr> t2])
         = [Release, Cb None None, Release, Cb (Some e) None]"
  using assms
  by (simp add: dispatch_def query_def execQuery_def exCb_def)

text \<open>
  A request that closes while it waits for a handle, and whose handle then cannot be
  created, still has the factory's error delivered (line 292 comes before the test of
  line 296).
\<close>

lemma close_then_acquire_error_is_delivered:
  assumes "q_req c" and "q_mode c = EXEC"
  shows "q_trace (dispatch c t0 [Close, Acquired (Some e) t1]) = [Cb (Some e) None]"
  using assms by (simp add: dispatch_def query_def)

text \<open>
  An answer whose \<open>dummyRows\<close> is an empty array makes the callback of \<open>statement.exec\<close>
  throw (line 374): the handle stays acquired and the caller is never called.
\<close>

lemma empty_dummyRows_throws:
  assumes "q_mode c = EXEC" and "\<not> q_doPrep c" and "\<not> q_resp c"
  shows "q_trace (dispatch c t0
           [Acquired None t1, ExecAnswer \<lparr> x_err = None, x_rows = r, x_dummyRows = Some [] \<rparr> t2])
         = [Throw ''TypeError'']"
  using assms
  by (simp add: dispatch_def query_def execQuery_def exCb_def setupRespHeader_def)

text \<open>Whatever the configuration and the times, the two headers of a served query are \<open>NaN\<close>.\<close>

lemma response_headers_never_numbers:
  assumes "q_resp c" and "q_mode c = EXEC" and "\<not> q_doPrep c"
  shows "headers (q_trace (dispatch c t0
           [Acquired None t1, ExecAnswer \<lparr> x_err = None, x_rows = r, x_dummyRows = None \<rparr> t2]))
         = [(or_else (resphPrefix (hp_options (q_me c))) [] @ ''query-time'', NaN),
            (or_else (resphPrefix (hp_options (q_me c))) [] @ ''waiting-time'', NaN)]"
  using assms
  by (simp add: dispatch_def query_def execQuery_def exCb_def setupRespHeader_def
                this_start_def this_execStart_def js_minus_def)

text \<open>
  C3. The claim: when the request closes before the query completes, the dispatcher
  releases the handle at once (or on acquisition, if the close came while waiting) and no
  result or error of that query is ever delivered to the caller. The code does the first
  and misses the second: \<open>closeCb\<close> releases the handle and calls \<open>cb(null)\<close>, but the
  statement keeps running and its callback \<open>exCb\<close> does not look at the request any more.
  A request that closes while the statement runs has the handle released twice and the
  statement's error handed to the caller after the close; a request that closes while
  waiting for a handle is served as claimed.
\<close>

theorem close_during_execution_still_delivers:
  "q_trace (dispatch httpExec 1000
      [Acquired None 1500, Close,
       ExecAnswer \<lparr> x_err = Some sqlError, x_rows = None, x_dummyRows = None \<rparr> 1700])
     = [Release, Cb None None, Release, Cb (Some sqlError) None]
   \<and> q_trace (dispatch httpExec 1000
      [Close, Acquired None 1500,
       ExecAnswer \<lparr> x_err = Some sqlError, x_rows = None, x_dummyRows = None \<rparr> 1700])
     = [Release, Cb None None]"
  by (simp add: dispatch_simps)

text \<open>
  C4. The claim: in request-integrated mode the response header \<open><prefix>query-time\<close> is
  the milliseconds spent executing the statement and \<open><prefix>waiting-time\<close> the
  milliseconds spent waiting for a pooled resource. The code names the headers so, but
  computes both from \<open>this.start\<close> and \<open>this.execStart\<close>, which are never assigned: a query
  that waited 500 ms for its handle and ran for 200 ms answers with both headers \<open>NaN\<close>,
  while the two times are in the local variables of \<open>query\<close>.
\<close>

theorem response_time_headers_are_NaN:
  "headers (q_trace (dispatch httpExec 1000
      [Acquired None 1500,
       ExecAnswer \<lparr> x_err = None, x_rows = Some ''[[1]]'', x_dummyRows = None \<rparr> 1700]))
     = [(''test-query-time'', NaN), (''test-waiting-time'', NaN)]
   \<and> q_start (dispatch httpExec 1000
      [Acquired None 1500,
       ExecAnswer \<lparr> x_err = None, x_rows = Some ''[[1]]'', x_dummyRows = None \<rparr> 1700])
     = Some 1000
   \<and> q_execStart (dispatch httpExec 1000
      [Acquired None 1500,
       ExecAnswer \<lparr> x_err = None, x_rows = Some ''[[1]]'', x_dummyRows = None \<rparr> 1700])
     = Some 1500"
  by (simp add: dispatch_simps construct_simps)

subsection \<open>Large objects in streamed rows\<close>

lemma update_at:
  "c \<notin> fst ` set pre \<Longrightarrow> AList.update c w (pre @ (c, v) # post) = pre @ (c, w) # post"
  by (induction pre) auto

text \<open>Columns not yet visited are untouched; visited ones are materialized.\<close>

lemma forEachOf_map:
  "distinct (map fst (done @ todo)) \<Longrightarrow>
   forEachOf decode todo (map (\<lambda>(c, v). (c, materialized decode v)) done @ todo)
     = map (\<lambda>(c, v). (c, materialized decode v)) (done @ todo)"
proof (induction todo arbitrary: "done")
  case Nil
  then show ?case by simp
next
  case (Cons p todo)
  obtain c v where p: "p = (c, v)" by (cases p)
  have d: "distinct (map fst ((done @ [p]) @ todo))" using Cons.prems by simp
  have "c \<notin> fst ` set (map (\<lambda>(c, v). (c, materialized decode v)) done)"
    using Cons.prems p by (auto simp: image_iff)
  then have upd: "AList.update c w (map (\<lambda>(c, v). (c, materialized decode v)) done @ (c, v) # todo)
           = map (\<lambda>(c, v). (c, materialized decode v)) done @ (c, w) # todo" for w
    by (rule update_at)
  show ?case
    using Cons.IH [OF d] p upd
    by (cases v) (auto simp: materialized_def readLob_def split: lob.splits)
qed

lemma transform_map:
  "distinct (map fst data) \<Longrightarrow>
   transform decode data = map (\<lambda>(c, v). (c, materialized decode v)) data"
  using forEachOf_map [of "[]" data decode] by (simp add: transform_def)

lemma forEachOf_plain:
  "list_all (\<lambda>(c, v). \<not> is_lob v) todo \<Longrightarrow> forEachOf decode todo data = data"
  by (induction decode todo data rule: forEachOf.induct) (auto split: cell.splits)

text \<open>
  C5. For every streamed row (its columns distinct, as the properties of an object are) in
  which reading one large-object column fails, that column's value is replaced by the
  sentinel \<open>'Error while reading Lob!'\<close>, while every sibling column is transformed
  correctly: a large object that reads to its end becomes its decoded text, any other
  value is kept. A row without large-object columns passes through unchanged, an array
  chunk is transformed element by element in order, and the rows before and after a
  failing row are transformed as if it were not there.
\<close>

theorem lob_failure_is_local:
  "(distinct (map fst data) \<longrightarrow>
      transform decode data = map (\<lambda>(c, v). (c, materialized decode v)) data)
   \<and> (list_all (\<lambda>(c, v). \<not> is_lob v) data \<longrightarrow> transform decode data = data)
   \<and> (distinct (map fst data) \<and> (column, LobValue (LobFails got)) \<in> set data \<longrightarrow>
        map_of (transform decode data) column = Some (Plain ''Error while reading Lob!'')
        \<and> (\<forall>c v. (c, v) \<in> set data \<and> c \<noteq> column \<longrightarrow>
              map_of (transform decode data) c = Some (materialized decode v)))
   \<and> TransformLobs_transform decode (Batch rs) = Batch (map (transform decode) rs)
   \<and> TransformLobs decode (before @ Single data # after)
       = TransformLobs decode before @ Single (transform decode data) # TransformLobs decode after"
proof -
  have a: "map_of (transform decode data) c = Some (materialized decode v)"
    if "distinct (map fst data)" "(c, v) \<in> set data" for c v
  proof -
    have "distinct (map fst (map (\<lambda>(c, v). (c, materialized decode v)) data))"
      using that(1) by (simp add: case_prod_beta comp_def)
    moreover have "(c, materialized decode v) \<in> set (map (\<lambda>(c, v). (c, materialized decode v)) data)"
      using that(2) by force
    ultimately show ?thesis
      using that(1) by (simp add: transform_map)
  qed
  have b: "materialized decode (LobValue (LobFails got)) = Plain ''Error while reading Lob!''"
    by (simp add: materialized_def)
  have c: "map_of (transform decode data) column = Some (Plain ''Error while reading Lob!'')"
    if "distinct (map fst data)" "(column, LobValue (LobFails got)) \<in> set data"
    using a [OF that] b by simp
  have d: "list_all (\<lambda>(c, v). \<not> is_lob v) data \<longrightarrow> transform decode data = data"
    by (simp add: transform_def forEachOf_plain)
  have e: "TransformLobs_transform decode (Batch rs) = Batch (map (transform decode) rs)"
    by (simp add: TransformLobs_transform_def)
  have f: "TransformLobs decode (before @ Single data # after)
       = TransformLobs decode before @ Single (transform decode data) # TransformLobs decode after"
    by (simp add: TransformLobs_def TransformLobs_transform_def)
  have g: "distinct (map fst data) \<longrightarrow>
      transform decode data = map (\<lambda>(c, v). (c, materialized decode v)) data"
    by (simp add: transform_map)
  from a c d e f g show ?thesis
    by blast
qed

theorem lob_failure_is_local_witness:
  "distinct (map fst sampleRow)
   \<and> (''COL2'', LobValue (LobFails [''lor''])) \<in> set sampleRow
   \<and> transform (\<lambda>b. b) sampleRow
       = [(''COL1'', Plain ''c1r1''), (''COL2'', Plain ''Error while reading Lob!''),
          (''COL3'', Plain ''lorem ipsum''), (''COL4'', Null)]
   \<and> map_of (transform (\<lambda>b. b) sampleRow) ''COL2'' = Some (Plain ''Error while reading Lob!'')
   \<and> list_all (\<lambda>(c, v). \<not> is_lob v) [(''COL1'', Plain ''c1r1''), (''COL4'', Null)]
   \<and> transform (\<lambda>b. b) [(''COL1'', Plain ''c1r1''), (''COL4'', Null)]
       = [(''COL1'', Plain ''c1r1''), (''COL4'', Null)]"
  using lob_failure_is_local [of sampleRow "\<lambda>b. b" "''COL2''" "[''lor'']"]
        lob_failure_is_local [of "[(''COL1'', Plain ''c1r1''), (''COL4'', Null)]" "\<lambda>b. b"]
  by (simp add: sampleRow_def materialized_def)

subsection \<open>Delimiter-separated output\<close>

lemma indexOf_from_sublist:
  "(indexOf_from i v pat \<ge> 0) = sublist pat v"
proof (induction v arbitrary: i)
  case Nil
  then show ?case by simp
next
  case (Cons c cs)
  then show ?case by (simp add: sublist_Cons_right)
qed

lemma indexOf_sublist: "(indexOf v pat \<ge> 0) = sublist pat v"
  by (simp add: indexOf_def indexOf_from_sublist)

lemma sublist_single: "sublist [c] v = (c \<in> set v)"
  by (induction v) (auto simp: sublist_Cons_right)

lemma dsvquote_cases:
  "sep \<noteq> [] \<Longrightarrow>
   dsvquote v sep =
     (if sublist sep v \<or> dquote \<in> set v \<or> LF \<in> set v \<or> CR \<in> set v
      then [dquote] @ escape v @ [dquote] else v)"
  by (cases v) (auto simp: dsvquote_def indexOf_sublist sublist_single has_linebreak_def)

lemma read_unquoted:
  "c \<notin> set v \<Longrightarrow> dquote \<notin> set v \<Longrightarrow> LF \<notin> set v \<Longrightarrow> CR \<notin> set v \<Longrightarrow>
   rfc4180 c Unquoted acc (v @ rest) = rfc4180 c Unquoted (rev v @ acc) rest"
  by (induction v arbitrary: acc) auto

lemma read_quoted:
  "rfc4180 c Quoted acc (escape v @ dquote # rest) = rfc4180 c QuoteSeen (rev v @ acc) rest"
  by (induction v arbitrary: acc) auto

lemma read_field_last:
  assumes "c \<noteq> dquote" "c \<noteq> CR" "c \<noteq> LF"
  shows "rfc4180 c FieldStart [] (dsvquote v [c]) = [v]"
proof (cases "c \<in> set v \<or> dquote \<in> set v \<or> LF \<in> set v \<or> CR \<in> set v")
  case True
  then have "dsvquote v [c] = dquote # escape v @ [dquote]"
    by (simp add: dsvquote_cases sublist_single)
  then show ?thesis using read_quoted [of c "[]" v "[]"] by simp
next
  case False
  then have q: "dsvquote v [c] = v"
    by (simp add: dsvquote_cases sublist_single)
  show ?thesis
  proof (cases v)
    case Nil
    then show ?thesis using q by simp
  next
    case (Cons x xs)
    then show ?thesis using q False assms read_unquoted [of c xs "[x]" "[]"] by auto
  qed
qed

lemma read_field_more:
  assumes "c \<noteq> dquote" "c \<noteq> CR" "c \<noteq> LF"
  shows "rfc4180 c FieldStart [] (dsvquote v [c] @ c # rest) = v # rfc4180 c FieldStart [] rest"
proof (cases "c \<in> set v \<or> dquote \<in> set v \<or> LF \<in> set v \<or> CR \<in> set v")
  case True
  then have "dsvquote v [c] = dquote # escape v @ [dquote]"
    by (simp add: dsvquote_cases sublist_single)
  then show ?thesis using read_quoted [of c "[]" v "c # rest"] assms by simp
next
  case False
  then have q: "dsvquote v [c] = v"
    by (simp add: dsvquote_cases sublist_single)
  show ?thesis
  proof (cases v)
    case Nil
    then show ?thesis using q assms by simp
  next
    case (Cons x xs)
    then show ?thesis using q False assms read_unquoted [of c xs "[x]" "c # rest"] by auto
  qed
qed

lemma roundtrip:
  assumes "c \<noteq> dquote" "c \<noteq> CR" "c \<noteq> LF"
  shows "vs \<noteq> [] \<Longrightarrow> parse_record c (join [c] (map (\<lambda>v. dsvquote v [c]) vs)) = vs"
proof (induction vs rule: induct_list012)
  case 1
  then show ?case by simp
next
  case (2 v)
  then show ?case using read_field_last [OF assms] by (simp add: parse_record_def)
next
  case (3 v w ws)
  then show ?case using read_field_more [OF assms] by (simp add: parse_record_def)
qed

lemma quoted_not_formatted: "quoted codes col \<Longrightarrow> \<not> formatted codes col"
  by (auto simp: quoted_def formatted_def DSV_QUOTE_def DSV_FORMAT_def split: option.splits)

lemma quoted_not_inherited: "quoted codes col \<Longrightarrow> \<not> inherited codes col"
  by (auto simp: quoted_def inherited_def DSV_QUOTE_def Object_prototype_def split: option.splits)

lemma dsv_value_quoted:
  assumes "quoted codes col" and "dataType col \<noteq> 13" and "row_get r (column_key col) \<noteq> JsNull"
  shows "\<exists>x. dsv_value codes sep r col = Returns x
            \<and> join_text x = dsvquote (join_text (row_get r (column_key col))) sep"
  using assms
  by (cases "row_get r (column_key col)")
     (simp_all add: dsv_value_def quoted_not_formatted ifnull_def dsvquote_value_def join_text_def
                    dsvquote_def)

lemma pushed_returns:
  assumes "list_all (\<lambda>col. \<exists>x. f col = Returns x \<and> join_text x = g col) cols"
  shows "pushed (map f cols) = Returns (map g cols)"
  using assms by (induction cols) auto

lemma stringify_quoted:
  assumes "list_all (\<lambda>col. quoted codes col \<and> dataType col \<noteq> 13
                          \<and> row_get r (column_key col) \<noteq> JsNull) metadata"
  shows "stringify codes sep metadata r
       = Returns (join sep (map (\<lambda>v. dsvquote v sep)
                     (map (\<lambda>col. join_text (row_get r (column_key col))) metadata)))"
proof -
  have "list_all (\<lambda>col. \<exists>x. dsv_value codes sep r col = Returns x
                  \<and> join_text x = dsvquote (join_text (row_get r (column_key col))) sep) metadata"
    using assms dsv_value_quoted [of codes _ r sep] by (auto simp: list_all_iff)
  then have "pushed (map (dsv_value codes sep r) metadata)
           = Returns (map (\<lambda>col. dsvquote (join_text (row_get r (column_key col))) sep) metadata)"
    by (rule pushed_returns)
  then show ?thesis
    by (simp add: stringify_def comp_def)
qed

text \<open>
  Where the stringifier does as the RFC asks: a string in a column whose type is in
  \<open>DSV_QUOTE\<close> is enclosed in double quotes exactly when it holds the separator, a double
  quote or a line break, each double quote doubled; and a record of such columns, none of
  them null or of type code 13, their names and the separator fit to be pasted into the
  generated source, reads back as the original strings.
\<close>

lemma quoted_column_value:
  assumes "quoted codes col" and "dataType col \<noteq> 13" and "row_get r (column_key col) = Str v"
    and "sep \<noteq> []"
  shows "dsv_value codes sep r col =
           Returns (Str (if sublist sep v \<or> dquote \<in> set v \<or> LF \<in> set v \<or> CR \<in> set v
                         then [dquote] @ escape v @ [dquote] else v))"
  using assms dsvquote_cases [of sep v]
  by (simp add: dsv_value_def quoted_not_formatted ifnull_def dsvquote_value_def)

lemma quoted_columns_roundtrip:
  assumes "c \<noteq> dquote" and "c \<noteq> CR" and "c \<noteq> LF" and "c \<noteq> apostrophe" and "c \<noteq> CHR 0x5C"
    and "metadata \<noteq> []"
    and "list_all (\<lambda>col. quoted codes col \<and> dataType col \<noteq> 13
                          \<and> literal apostrophe (column_key col)
                          \<and> row_get r (column_key col) \<noteq> JsNull) metadata"
  shows "\<exists>line. createDsvStringifier codes metadata [c] r = Returns line
             \<and> parse_record c line = map (\<lambda>col. join_text (row_get r (column_key col))) metadata"
proof -
  have "generated codes metadata [c]"
    using assms by (auto simp: generated_def literal_def list_all_iff quoted_not_inherited)
  moreover have "stringify codes [c] metadata r
       = Returns (join [c] (map (\<lambda>v. dsvquote v [c])
                     (map (\<lambda>col. join_text (row_get r (column_key col))) metadata)))"
    using assms(7) by (intro stringify_quoted) (auto simp: list_all_iff)
  ultimately show ?thesis
    using assms(1-3,6)
          roundtrip [of c "map (\<lambda>col. join_text (row_get r (column_key col))) metadata"]
    by (simp add: createDsvStringifier_def Let_def)
qed

lemmas dsv_simps =
  rfcColumns_def rfcRow_def lobColumns_def lobRow_def hdbTypeCodes_def row_get_def
  column_key_def join_text_def DSV_QUOTE_def DSV_FORMAT_def Object_prototype_def dquote_def
  CR_def LF_def apostrophe_def createCsvStringifier_def createDsvStringifier_def
  generated_def literal_def quoted_def formatted_def inherited_def dataTypeName_def
  stringify_def dsv_value_def ifnull_def dsvquote_value_def iso8601_def

text \<open>The repository's RFC 4180 test: three character columns read back as they were.\<close>

lemma rfc4180_test_roundtrip:
  "createCsvStringifier hdbTypeCodes rfcColumns rfcRow
     = Returns ([dquote] @ ''value,value'' @ [dquote] @ '','' @ [dquote] @ ''value'' @ [dquote, dquote]
                @ ''value'' @ [dquote] @ '','' @ [dquote] @ ''value'' @ [LF] @ ''value'' @ [dquote])
   \<and> parse_record CHR '',''
        ([dquote] @ ''value,value'' @ [dquote] @ '','' @ [dquote] @ ''value'' @ [dquote, dquote]
         @ ''value'' @ [dquote] @ '','' @ [dquote] @ ''value'' @ [LF] @ ''value'' @ [dquote])
     = [''value,value'', ''value'' @ [dquote] @ ''value'', ''value'' @ [LF] @ ''value'']"
  by (simp add: dsv_simps dsvquote_def indexOf_def has_linebreak_def parse_record_def)

text \<open>
  Where the generated function throws, or is not the function meant: a date that is not
  null, a column of type code 13, and a column name with an apostrophe.
\<close>

lemma stringifier_exceptions:
  "createCsvStringifier hdbTypeCodes [\<lparr> columnDisplayName = ''D'', dataType = 14 \<rparr>]
      [(''D'', Some ''2016-01-31'')] = Throws ''ReferenceError''
   \<and> createCsvStringifier hdbTypeCodes [\<lparr> columnDisplayName = ''D'', dataType = 14 \<rparr>]
      [(''D'', None)] = Returns [CHR 0x5C, CHR ''N'']
   \<and> createCsvStringifier hdbTypeCodes [\<lparr> columnDisplayName = ''B'', dataType = 13 \<rparr>]
      [(''B'', Some ''00ff'')] = Throws ''RangeError''
   \<and> createCsvStringifier hdbTypeCodes
      [\<lparr> columnDisplayName = ''it'' @ [apostrophe] @ ''s'', dataType = 11 \<rparr>]
      [(''it'' @ [apostrophe] @ ''s'', Some ''value'')] = OtherCode"
  by (simp add: dsv_simps)

text \<open>
  C7. The claim: the serializer encloses every string value in double quotes exactly when
  it holds the separator, a double quote or a line break, so that the value read back by
  an RFC 4180 reader is the original. \<open>dsvquote\<close> does so (its comment quotes the RFC), but
  the stringifier calls it only for the columns whose type name is in \<open>DSV_QUOTE\<close>, and that
  table names \<open>TEXT\<close> but neither \<open>CLOB\<close> nor \<open>NCLOB\<close>, whose values are strings once
  \<open>transformLobs\<close> has read them. The comma-separated stringifier writes the NCLOB value
  \<open>value,value\<close> without quotes, and the reader finds two fields; the same value in an
  NVARCHAR column is quoted and read back as one.
\<close>

theorem nclob_value_is_written_unquoted:
  "createCsvStringifier hdbTypeCodes lobColumns lobRow = Returns ''value,value''
   \<and> parse_record CHR '','' ''value,value'' = [''value'', ''value'']
   \<and> createCsvStringifier hdbTypeCodes [hd rfcColumns] lobRow
        = Returns ([dquote] @ ''value,value'' @ [dquote])
   \<and> parse_record CHR '','' ([dquote] @ ''value,value'' @ [dquote]) = [''value,value'']"
  by (simp add: dsv_simps dsvquote_def indexOf_def has_linebreak_def parse_record_def)

subsection \<open>Routing by environment\<close>

text \<open>
  C10. For every request, the environment is resolved by a fixed precedence: a field of
  the POST body overrides a GET query parameter (or, without one, the query parameter
  parsed from the session's \<open>returnTo\<close> URL), which overrides a request header, which
  overrides a field of the session; when none is present (or there is no request) the
  result is the configured default environment, \<open>'HDB'\<close> when none is configured.
\<close>

theorem getEnvFromRequest_precedence:
  "getEnvFromRequest c url_query None = or_else (db_default c) ''HDB''
   \<and> getEnvFromRequest c url_query (Some r) =
       (if truthy (field (r_body r) (sourceSysField c))
        then the (field (r_body r) (sourceSysField c))
        else if truthy (field (r_query r) (sourceSysField c))
        then the (field (r_query r) (sourceSysField c))
        else if (case r_session r of
                   Some s \<Rightarrow> truthy (returnTo s)
                             \<and> truthy (url_query (the (returnTo s)) (sourceSysField c))
                 | None \<Rightarrow> False)
        then the (url_query (the (returnTo (the (r_session r)))) (sourceSysField c))
        else if truthy (field (r_headers r) (sourceSysField c))
        then the (field (r_headers r) (sourceSysField c))
        else if (case r_session r of
                   Some s \<Rightarrow> truthy (ses_field s (sourceSysField c)) | None \<Rightarrow> False)
        then the (ses_field (the (r_session r)) (sourceSysField c))
        else or_else (db_default c) ''HDB'')"
  by (simp add: getEnvFromRequest_def Let_def split: option.split)

text \<open>
  For every name but \<open>default\<close> and the names that \<open>Conf.db\<close> inherits, \<open>query\<close> fails with
  the invalid-value error exactly when the name breaks the syntax or is not an environment
  of the configuration.
\<close>

lemma query_validates_env:
  assumes "getEnvFromRequest c url_query req = e" and "e \<noteq> ''default''"
    and "e \<notin> set Object_prototype"
  shows "(hdbMetaPool_query c envPools url_query req True
            = Failed (''invalid '' @ sourceSysField c @ '' value: '' @ e))
         = (\<not> env_syntax e \<or> e \<notin> fst ` set (db_envs c))"
proof -
  have "truthy_entry (Conf_db c e) = (e \<in> fst ` set (db_envs c))"
    using assms(2,3)
    by (auto simp: truthy_entry_def Conf_db_def dom_map_of_conv_image_fst [symmetric] domIff
             split: option.splits)
  moreover have "e = [] \<Longrightarrow> \<not> env_syntax e"
    by (simp add: env_syntax_def)
  ultimately show ?thesis
    using assms(1)
    by (auto simp: hdbMetaPool_query_def queryEnvPool_def Let_def
             split: option.splits created.splits)
qed

lemmas meta_simps =
  hdbMetaPool_query_def getEnvFromRequest_def headerRequest_def Conf_def Conf_db_def
  truthy_entry_def env_syntax_def initEnvPools_def envPoolOpts_def queryEnvPool_def field_def
  Object_prototype_def

text \<open>
  A name that \<open>Conf.db\<close> inherits from \<open>Object.prototype\<close> passes the validation like
  \<open>default\<close> does, and the call throws in \<open>queryEnvPool\<close>.
\<close>

lemma inherited_name_passes_env_validation:
  "hdbMetaPool_query Conf (initEnvPools Conf) (\<lambda>u. Map.empty)
      (Some (headerRequest ''constructor'')) True = TypeError
   \<and> hdbMetaPool_query Conf (initEnvPools Conf) (\<lambda>u. Map.empty)
      (Some (headerRequest ''__proto__'')) True = TypeError"
  by (simp add: meta_simps construct_simps)

text \<open>
  C8. The claim: an environment name is used as a routing key only if it matches the
  syntax and names a configured environment; any other value fails at once with the
  invalid-value error, before any pool is looked up. The code tests \<open>Conf.db[env]\<close>, and
  \<open>Conf.db\<close> also holds the property \<open>default\<close>, which \<open>initEnvPools\<close> leaves out: with the
  configuration of the source, the name \<open>default\<close> passes both checks, the environment
  pools are looked up, and \<open>envPools['default']\<close> being undefined the call throws a TypeError
  instead of the error of the claim. A name that is no property of \<open>Conf.db\<close>, or that
  breaks the syntax, fails as claimed.
\<close>

theorem default_passes_env_validation:
  "hdbMetaPool_query Conf (initEnvPools Conf) (\<lambda>u. Map.empty)
      (Some (headerRequest ''default'')) True = TypeError
   \<and> map fst (initEnvPools Conf) = [''HDB'']
   \<and> hdbMetaPool_query Conf (initEnvPools Conf) (\<lambda>u. Map.empty)
      (Some (headerRequest ''NOPE'')) True = Failed ''invalid source-sys value: NOPE''
   \<and> hdbMetaPool_query Conf (initEnvPools Conf) (\<lambda>u. Map.empty)
      (Some (headerRequest ''H-DB'')) True = Failed ''invalid source-sys value: H-DB''"
  by (simp add: meta_simps construct_simps)

subsection \<open>Failures of a query on a user pool\<close>

lemma clean_registered:
  assumes "w_userPools w userId = Some entry"
  shows "snd (clean w userId e error result) = Callback (Some error) result"
    and "w_userPools (fst (clean w userId e error result))
           = (w_userPools w)(userId \<mapsto> entry \<lparr> ue_pools := (ue_pools entry)(e \<mapsto> None) \<rparr>)"
    and "w_pool (fst (clean w userId e error result)) = w_pool w"
    and "\<not> truthy (cached_cookie (fst (clean w userId e error result)) e)"
    and "w_saves (fst (clean w userId e error result))
           = (if truthy (cached_cookie w e) then w_saves w + 1 else w_saves w)"
  using assms
  by (auto simp: clean_def Let_def cached_cookie_def truthy_def split: option.splits)

lemma cached_cookie_pool: "cached_cookie (w \<lparr> w_pool := p \<rparr>) e = cached_cookie w e"
  by (simp add: cached_cookie_def)

lemma drain_and_clean_registered:
  assumes "w_userPools w userId = Some entry"
  shows "snd (drain_and_clean w userId e (Some err) result)
           = Callback (Some (delete_assertion err)) result"
    and "w_userPools (fst (drain_and_clean w userId e (Some err) result))
           = (w_userPools w)(userId \<mapsto> entry \<lparr> ue_pools := (ue_pools entry)(e \<mapsto> None) \<rparr>)"
    and "gp_min (w_pool (fst (drain_and_clean w userId e (Some err) result))) = 0"
    and "gp_size (w_pool (fst (drain_and_clean w userId e (Some err) result))) = 0"
    and "\<not> truthy (cached_cookie (fst (drain_and_clean w userId e (Some err) result)) e)"
    and "w_saves (fst (drain_and_clean w userId e (Some err) result))
           = (if truthy (cached_cookie w e) then w_saves w + 1 else w_saves w)"
  using assms
  by (simp_all add: drain_and_clean_def Let_def clean_registered [where entry = entry]
                    cached_cookie_pool drain_def destroyAllNow_def)

text \<open>
  C1, as amended. For every query on a user's pool that fails with MISSING_PRINCIPAL
  (code 591 and a message that holds \<open>Invalid principal id for principal $principalName$\<close>
  after its first character) or with AUTH_FAILED (code 10), the user being registered and
  the error not being re-probed (AUTH_FAILED on a pool opened with an assertion, the
  assertion attached to the error): the handler sets the pool's \<open>min\<close> to 0 and leaves it
  without handles (drained and destroyed when it had any), sets the user's pool reference
  of that environment to \<open>null\<close> while the user's entry stays registered, clears the HANA
  session cookie cached in the request's session and saves the session when there was one,
  and calls the caller's callback with the original error without its \<open>assertion\<close>
  property. An error of any other class, or no error, is passed through unchanged.
\<close>

theorem auth_failure_flushes_pool:
  "((isAuthFailed err \<or> isMissingUser err)
    \<and> (isMissingUser err \<or> authMethod \<noteq> ''assertion'' \<or> \<not> truthy (assertion_of (the err)))
    \<and> w_userPools w userId = Some entry \<longrightarrow>
      snd (queryUserPool_callback w userId e authMethod probe err result)
        = Callback (Some (delete_assertion (the err))) result
      \<and> gp_min (w_pool (fst (queryUserPool_callback w userId e authMethod probe err result))) = 0
      \<and> gp_size (w_pool (fst (queryUserPool_callback w userId e authMethod probe err result))) = 0
      \<and> w_userPools (fst (queryUserPool_callback w userId e authMethod probe err result))
          = (w_userPools w)(userId \<mapsto> entry \<lparr> ue_pools := (ue_pools entry)(e \<mapsto> None) \<rparr>)
      \<and> \<not> truthy (cached_cookie
                     (fst (queryUserPool_callback w userId e authMethod probe err result)) e)
      \<and> w_saves (fst (queryUserPool_callback w userId e authMethod probe err result))
          = (if truthy (cached_cookie w e) then w_saves w + 1 else w_saves w))
   \<and> (\<not> isAuthFailed err \<and> \<not> isMissingUser err \<longrightarrow>
        queryUserPool_callback w userId e authMethod probe err result = (w, Callback err result))"
proof -
  have direct: "queryUserPool_callback w userId e authMethod probe err result
                  = drain_and_clean w userId e (Some (the err)) result"
    if "isAuthFailed err \<or> isMissingUser err"
       "isMissingUser err \<or> authMethod \<noteq> ''assertion'' \<or> \<not> truthy (assertion_of (the err))"
  proof -
    from that(1) obtain x where "err = Some x"
      by (cases err) (auto simp: isAuthFailed_def isMissingUser_def)
    then show ?thesis using that by (auto simp: queryUserPool_callback_def)
  qed
  have other: "queryUserPool_callback w userId e authMethod probe err result = (w, Callback err result)"
    if "\<not> isAuthFailed err" "\<not> isMissingUser err"
    using that by (simp add: queryUserPool_callback_def)
  show ?thesis
    using direct other drain_and_clean_registered [of w userId entry e "the err" result]
    by auto
qed

lemmas handler_simps =
  queryUserPool_callback_def drain_and_clean_def clean_def detectSAMLerror_def cached_cookie_def
  isAuthFailed_def isMissingUser_def bobWorld_def bobSession_def missingPrincipal_def
  authFailed_def probeFailed_def drain_def destroyAllNow_def indexOf_def truthy_def Let_def

theorem auth_failure_flushes_pool_witness:
  "isMissingUser (Some missingPrincipal)
   \<and> w_userPools bobWorld ''bob'' \<noteq> None
   \<and> snd (queryUserPool_callback bobWorld ''bob'' ''HDB'' ''assertion'' None
            (Some missingPrincipal) ())
       = Callback (Some (ErrObject (Some 591)
           (Some ''internal error: Invalid principal id for principal $principalName$'') None)) ()
   \<and> gp_size (w_pool (fst (queryUserPool_callback bobWorld ''bob'' ''HDB'' ''assertion'' None
            (Some missingPrincipal) ()))) = 0
   \<and> cached_cookie bobWorld ''HDB'' = Some ''cookie1''
   \<and> \<not> truthy (cached_cookie (fst (queryUserPool_callback bobWorld ''bob'' ''HDB'' ''assertion''
            None (Some missingPrincipal) ())) ''HDB'')
   \<and> isAuthFailed (Some authFailed)
   \<and> snd (queryUserPool_callback bobWorld ''bob'' ''HDB'' ''sessionCookie'' None
            (Some authFailed) ())
       = Callback (Some (ErrObject (Some 10) (Some ''authentication failed'') None)) ()
   \<and> \<not> isAuthFailed (Some probeFailed) \<and> \<not> isMissingUser (Some probeFailed)
   \<and> queryUserPool_callback bobWorld ''bob'' ''HDB'' ''assertion'' None (Some probeFailed) ()
       = (bobWorld, Callback (Some probeFailed) ())"
  using auth_failure_flushes_pool
          [of "Some missingPrincipal" "''assertion''" bobWorld "''bob''"
              "the (w_userPools bobWorld ''bob'')" "''HDB''" None "()"]
        auth_failure_flushes_pool
          [of "Some authFailed" "''sessionCookie''" bobWorld "''bob''"
              "the (w_userPools bobWorld ''bob'')" "''HDB''" None "()"]
        auth_failure_flushes_pool
          [of "Some probeFailed" "''assertion''" bobWorld "''bob''"
              "the (w_userPools bobWorld ''bob'')" "''HDB''" None "()"]
  by (simp add: isAuthFailed_def isMissingUser_def missingPrincipal_def authFailed_def
                probeFailed_def bobWorld_def bobSession_def cached_cookie_def indexOf_def
                truthy_def)

text \<open>
  C1 as stated fails where the handler does as designed: the callback receives the error
  without the assertion that the pool attached to it (line 259), and the user's entry is
  still registered afterwards, with its sessions; only the pool reference is \<open>null\<close>.
\<close>

theorem flush_keeps_entry_and_strips_assertion:
  "snd (queryUserPool_callback bobWorld ''bob'' ''HDB'' ''assertion'' None
          (Some missingPrincipal) ()) \<noteq> Callback (Some missingPrincipal) ()
   \<and> map_option ue_sessions
        (w_userPools (fst (queryUserPool_callback bobWorld ''bob'' ''HDB'' ''assertion'' None
          (Some missingPrincipal) ())) ''bob'') = Some [''sid1'']
   \<and> map_option (\<lambda>u. ue_pools u ''HDB'')
        (w_userPools (fst (queryUserPool_callback bobWorld ''bob'' ''HDB'' ''assertion'' None
          (Some missingPrincipal) ())) ''bob'') = Some (Some None)"
  by (simp add: handler_simps)

text \<open>
  The path the amended claim leaves out: AUTH_FAILED on a pool opened with an assertion.
  The handler hands \<open>_drain\<close> to \<open>detectSAMLerror\<close> as its callback, so \<open>_drain\<close> runs on the
  probe's error: the caller receives the probe's error, and when the probe succeeds
  \<open>delete\<close> is applied to \<open>null\<close>, which throws, after the environment pool was flushed.
\<close>

lemma reprobe_replaces_error:
  "snd (queryUserPool_callback bobWorld ''bob'' ''HDB'' ''assertion'' (Some probeFailed)
          (Some authFailed) ()) = Callback (Some probeFailed) ()
   \<and> snd (queryUserPool_callback bobWorld ''bob'' ''HDB'' ''assertion'' None
          (Some authFailed) ()) = Threw
   \<and> w_envPoolSize (fst (queryUserPool_callback bobWorld ''bob'' ''HDB'' ''assertion'' None
          (Some authFailed) ())) ''HDB'' = Some 0"
  by (simp add: handler_simps)

end
